theory Spec2Isabelle
  imports Complex_Main
begin

section \<open>MedGuard: the analytical pipeline as HOL functions\<close>

text \<open>
  The Python sources compute on IEEE doubles held in numpy/xarray arrays. Here a finite
  double is a \<open>real\<close> and arithmetic is exact (rounding and overflow are outside the
  model), except in the double-precision model of the scenario simulator, where every
  operation is rounded. Where NaN
  matters it is written out: a cell of a risk-factor field that holds NaN (a land cell,
  a missing sample) is \<open>None\<close> in a \<open>real option\<close>, and a division whose divisor
  can be zero returns an \<open>np_float\<close>, with NaN and the infinities as values. A
  Python exception is a value of \<open>py_error\<close>, returned on the left of a sum.
\<close>

datatype py_error =
    ValueError string
  | TypeError
  | IndexError
  | LibraryError string

subsection \<open>MPA coverage (\<open>process_data_script.py\<close>, \<open>calculate_mpa_coverage\<close>)\<close>

text \<open>
  \<open>mpa.to_crs(epsg=3857).area\<close> is the series of the polygons' projected areas in
  square metres; the projection is geopandas' work, so the series is the input here.
  \<open>None\<close> is the case \<open>'mpa' not in self.raw_data\<close>, where the method returns
  without a result.
\<close>

record mpa_stats =
  total_mpa_area_km2 :: real
  coverage_percentage :: real
  number_of_mpas :: nat

definition calculate_mpa_coverage :: "real list option \<Rightarrow> mpa_stats option" where
  "calculate_mpa_coverage raw_mpa =
     (case raw_mpa of
        None \<Rightarrow> None
      | Some areas \<Rightarrow>
          (let mpa_area = sum_list areas / 1000000;
               med_total_area = 2500000;
               mpa_coverage_pct = (mpa_area / med_total_area) * 100
           in Some \<lparr>total_mpa_area_km2 = mpa_area,
                     coverage_percentage = mpa_coverage_pct,
                     number_of_mpas = length areas\<rparr>))"

subsection \<open>Scenario simulator (\<open>train_models_script.py\<close>, class \<open>MPASimulator\<close>)\<close>

record scenario =
  expansion_percentage :: real
  new_coverage :: real
  years :: "int list"
  stock_recovery :: "real list"
  biodiversity_recovery :: "real list"
  economic_benefit_usd :: "real list"
  final_stock_level :: real
  final_biodiversity :: real

text \<open>
  The simulator object: \<open>baseline_coverage\<close> is \<open>None\<close> until \<open>load_baseline\<close> ran;
  \<open>scenarios\<close> is the dictionary of the scenarios simulated so far. Its key
  \<open>f'expansion_{expansion_pct}pct'\<close> is a rendering of the percentage, so the map is
  keyed by the percentage itself.
\<close>

record mpa_simulator =
  baseline_coverage :: "real option"
  scenarios :: "real \<rightharpoonup> scenario"

definition MPASimulator_init :: mpa_simulator where
  "MPASimulator_init = \<lparr>baseline_coverage = None, scenarios = Map.empty\<rparr>"

text \<open>
  \<open>load_baseline\<close> reads the coverage from the summary file when the file and its
  \<open>mpa_stats\<close> column exist (\<open>mpa_stats.get('coverage_percentage', 0)\<close>), and takes
  the default 5.0 otherwise. The file's content is the argument: \<open>None\<close> for no file
  or no column, \<open>Some None\<close> for a record without the key.
\<close>

definition load_baseline :: "mpa_simulator \<Rightarrow> real option option \<Rightarrow> mpa_simulator" where
  "load_baseline sim summary =
     (case summary of
        Some (Some c) \<Rightarrow> sim\<lparr>baseline_coverage := Some c\<rparr>
      | Some None \<Rightarrow> sim\<lparr>baseline_coverage := Some 0\<rparr>
      | None \<Rightarrow> sim\<lparr>baseline_coverage := Some 5\<rparr>)"

text \<open>
  \<open>simulate_expansion(expansion_pct, years=10)\<close>. \<open>np.arange(0, years + 1)\<close> is
  \<open>[0..yrs]\<close>, empty for a negative \<open>yrs\<close>, and then \<open>stock_recovery[-1]\<close> raises
  IndexError; \<open>None + expansion_pct\<close> raises TypeError when no baseline was loaded.
\<close>

definition simulate_expansion ::
  "mpa_simulator \<Rightarrow> real \<Rightarrow> int \<Rightarrow> py_error + (scenario \<times> mpa_simulator)" where
  "simulate_expansion sim expansion_pct yrs =
     (case baseline_coverage sim of
        None \<Rightarrow> Inl TypeError
      | Some baseline \<Rightarrow>
          (let new_cov = baseline + expansion_pct;
               base_recovery_rate = 0.07;
               years_array = [0..yrs];
               K = 1.5;
               r = base_recovery_rate * (expansion_pct / 10);
               initial_stock = 0.6;
               stock = map (\<lambda>t. K / (1 + ((K - initial_stock) / initial_stock)
                                            * exp (- r * real_of_int t))) years_array;
               biodiversity = map (\<lambda>t. K / (1 + ((K - initial_stock) / initial_stock)
                                            * exp (- r * 0.8 * real_of_int t))) years_array;
               spillover_multiplier = 0.3;
               economic_benefit =
                 map (\<lambda>s. s * spillover_multiplier * expansion_pct * 1000000) stock
           in if years_array = [] then Inl IndexError
              else
                (let sc = \<lparr>expansion_percentage = expansion_pct,
                            new_coverage = new_cov,
                            years = years_array,
                            stock_recovery = stock,
                            biodiversity_recovery = biodiversity,
                            economic_benefit_usd = economic_benefit,
                            final_stock_level = last stock,
                            final_biodiversity = last biodiversity\<rparr>
                 in Inr (sc, sim\<lparr>scenarios := (scenarios sim)(expansion_pct \<mapsto> sc)\<rparr>))))"

subsection \<open>Scenario simulator in double precision\<close>

text \<open>
  Whether the stock curve stays below the carrying capacity or reaches it is decided by
  rounding, so the stock computation is modelled a second time with the rounding of every
  operation written out. A double is the real number it denotes, and \<open>float64\<close> rounds
  a real to the nearest number with a significand of 53 bits, a tie going to the even
  significand (the rounding of IEEE 754 binary64). The exponent range is unbounded here:
  overflow, subnormal numbers, the infinities and NaN are outside the model.
\<close>

definition round_half_even :: "real \<Rightarrow> int" where
  "round_half_even z =
     (if z - of_int \<lfloor>z\<rfloor> < 1 / 2 then \<lfloor>z\<rfloor>
      else if 1 / 2 < z - of_int \<lfloor>z\<rfloor> then \<lfloor>z\<rfloor> + 1
      else if even \<lfloor>z\<rfloor> then \<lfloor>z\<rfloor> else \<lfloor>z\<rfloor> + 1)"

text \<open>
  \<open>ulp x\<close> is the distance between neighbouring doubles in the binade of \<open>x > 0\<close>,
  so that \<open>x / ulp x\<close> lies in \<open>[2\<^sup>5\<^sup>2, 2\<^sup>5\<^sup>3)\<close> and its rounding to an
  integer is the significand of the nearest double.
\<close>

definition ulp :: "real \<Rightarrow> real" where
  "ulp x = 2 powr (of_int \<lfloor>log 2 x\<rfloor> - 52)"

definition round_magnitude :: "real \<Rightarrow> real" where
  "round_magnitude x = of_int (round_half_even (x / ulp x)) * ulp x"

definition float64 :: "real \<Rightarrow> real" where
  "float64 x =
     (if x = 0 then 0
      else if 0 < x then round_magnitude x
      else - round_magnitude (- x))"

text \<open>
  Every arithmetic operation on doubles returns the rounded exact result. No division of
  the method has a zero divisor: the divisors are 10, the initial stock and a denominator
  that is at least 1.
\<close>

definition fadd :: "real \<Rightarrow> real \<Rightarrow> real" where
  "fadd x y = float64 (x + y)"

definition fsub :: "real \<Rightarrow> real \<Rightarrow> real" where
  "fsub x y = float64 (x - y)"

definition fmul :: "real \<Rightarrow> real \<Rightarrow> real" where
  "fmul x y = float64 (x * y)"

definition fdiv :: "real \<Rightarrow> real \<Rightarrow> real" where
  "fdiv x y = float64 (x / y)"

text \<open>
  \<open>np.exp\<close> is taken as the correctly rounded exponential. The properties below use
  of it only that it is monotone, non-negative and returns 1 at 0, and, for the run
  that reaches the carrying capacity, that it is at most \<open>2\<^sup>-\<^sup>6\<^sup>5\<close> at arguments
  below \<open>-65\<close>.
\<close>

definition np_exp :: "real \<Rightarrow> real" where
  "np_exp x = float64 (exp x)"

text \<open>
  \<open>simulate_expansion\<close> in doubles: the same method, with the literals \<open>0.07\<close>,
  \<open>1.5\<close>, \<open>0.6\<close>, \<open>0.8\<close>, \<open>0.3\<close> rounded to doubles and the integer array
  \<open>years_array\<close> converted to doubles in the products \<open>-r * years_array\<close> and
  \<open>-r * 0.8 * years_array\<close> (which is \<open>(-r * 0.8) * years_array\<close>).
  \<open>expansion_pct\<close> is the number passed; Python's \<open>/\<close> returns the rounded
  quotient for an int as for a float.
\<close>

definition simulate_expansion_double ::
  "mpa_simulator \<Rightarrow> real \<Rightarrow> int \<Rightarrow> py_error + (scenario \<times> mpa_simulator)" where
  "simulate_expansion_double sim expansion_pct yrs =
     (case baseline_coverage sim of
        None \<Rightarrow> Inl TypeError
      | Some baseline \<Rightarrow>
          (let new_cov = fadd baseline expansion_pct;
               base_recovery_rate = float64 0.07;
               years_array = [0..yrs];
               K = float64 1.5;
               r = fmul base_recovery_rate (fdiv expansion_pct 10);
               initial_stock = float64 0.6;
               stock = map (\<lambda>t. fdiv K (fadd 1 (fmul (fdiv (fsub K initial_stock) initial_stock)
                                  (np_exp (fmul (- r) (float64 (of_int t))))))) years_array;
               biodiversity = map (\<lambda>t. fdiv K (fadd 1 (fmul (fdiv (fsub K initial_stock) initial_stock)
                                  (np_exp (fmul (fmul (- r) (float64 0.8)) (float64 (of_int t)))))))
                                years_array;
               spillover_multiplier = float64 0.3;
               economic_benefit =
                 map (\<lambda>s. fmul (fmul (fmul s spillover_multiplier) expansion_pct) 1000000) stock
           in if years_array = [] then Inl IndexError
              else
                (let sc = \<lparr>expansion_percentage = expansion_pct,
                            new_coverage = new_cov,
                            years = years_array,
                            stock_recovery = stock,
                            biodiversity_recovery = biodiversity,
                            economic_benefit_usd = economic_benefit,
                            final_stock_level = last stock,
                            final_biodiversity = last biodiversity\<rparr>
                 in Inr (sc, sim\<lparr>scenarios := (scenarios sim)(expansion_pct \<mapsto> sc)\<rparr>))))"

subsection \<open>Statistical models (\<open>train_models_script.py\<close>)\<close>

text \<open>
  \<open>OverfishingRiskModel\<close> and \<open>JuvenileCatchForecastModel\<close> hold the same four
  attributes. The estimator and the scaler are scikit-learn objects: their types are
  parameters, and so are the feature matrices \<open>'x\<close> and the target vectors \<open>'y\<close>.
\<close>

record ('m, 's) ml_model =
  model :: 'm
  scaler :: 's
  feature_names :: "string list"
  trained :: bool

text \<open>
  The library calls the two classes make. A call that can raise returns the message on
  the left; a call that mutates its object (\<open>fit\<close>, \<open>fit_transform\<close>) returns the
  object as the call left it, also when it raised.
\<close>

record ('m, 's, 'x, 'y, 'd) sklearn =
  train_test_split :: "'x \<Rightarrow> 'y \<Rightarrow> bool \<Rightarrow> string + ('x \<times> 'x \<times> 'y \<times> 'y)"
  fit_transform :: "'s \<Rightarrow> 'x \<Rightarrow> 's \<times> (string + 'x)"
  transform :: "'s \<Rightarrow> 'x \<Rightarrow> string + 'x"
  fit :: "'m \<Rightarrow> 'x \<Rightarrow> 'y \<Rightarrow> 'm \<times> (string + unit)"
  score :: "'m \<Rightarrow> 'x \<Rightarrow> 'y \<Rightarrow> string + real"
  predict :: "'m \<Rightarrow> 'x \<Rightarrow> string + 'y"
  predict_proba :: "'m \<Rightarrow> 'x \<Rightarrow> string + (real \<times> real) list"
  classification_report :: "'y \<Rightarrow> 'y \<Rightarrow> string + unit"
  mean_squared_error :: "'y \<Rightarrow> 'y \<Rightarrow> string + real"
  feature_importances :: "'m \<Rightarrow> real list"
  date_range :: "int \<Rightarrow> string + 'd list"

text \<open>
  A method call is a function from the object before the call to the outcome and the object
  after it. \<open>then_do\<close> sequences two statements: an exception ends the method with the
  object as it is at that point.
\<close>

type_synonym ('st, 'a) py_method = "'st \<Rightarrow> (py_error + 'a) \<times> 'st"

definition then_do :: "('st, 'a) py_method \<Rightarrow> ('a \<Rightarrow> ('st, 'b) py_method) \<Rightarrow> ('st, 'b) py_method" where
  "then_do m f s = (case m s of (Inl e, s') \<Rightarrow> (Inl e, s') | (Inr a, s') \<Rightarrow> f a s')"

definition call :: "string + 'a \<Rightarrow> ('st, 'a) py_method" where
  "call r s = (case r of Inl msg \<Rightarrow> (Inl (LibraryError msg), s) | Inr a \<Rightarrow> (Inr a, s))"

definition scaler_fit_transform ::
  "('m, 's, 'x, 'y, 'd) sklearn \<Rightarrow> 'x \<Rightarrow> (('m, 's) ml_model, 'x) py_method" where
  "scaler_fit_transform lib X s =
     (case fit_transform lib (scaler s) X of
        (sc, r) \<Rightarrow> call r (s\<lparr>scaler := sc\<rparr>))"

definition model_fit ::
  "('m, 's, 'x, 'y, 'd) sklearn \<Rightarrow> 'x \<Rightarrow> 'y \<Rightarrow> (('m, 's) ml_model, unit) py_method" where
  "model_fit lib X y s =
     (case fit lib (model s) X y of
        (m, r) \<Rightarrow> call r (s\<lparr>model := m\<rparr>))"

text \<open>
  \<open>pd.DataFrame({'feature': self.feature_names, 'importance': importances})\<close> raises
  ValueError when the two columns differ in length.
\<close>

definition importance_frame ::
  "real list \<Rightarrow> (('m, 's) ml_model, (string \<times> real) list) py_method" where
  "importance_frame importances s =
     (if length (feature_names s) = length importances
      then (Inr (zip (feature_names s) importances), s)
      else (Inl (ValueError ''All arrays must be of the same length''), s))"

definition set_trained :: "(('m, 's) ml_model, unit) py_method" where
  "set_trained s = (Inr (), s\<lparr>trained := True\<rparr>)"

definition return_value :: "'a \<Rightarrow> ('st, 'a) py_method" where
  "return_value a s = (Inr a, s)"

definition OverfishingRiskModel_init :: "'m \<Rightarrow> 's \<Rightarrow> ('m, 's) ml_model" where
  "OverfishingRiskModel_init classifier standard_scaler =
     \<lparr>model = classifier, scaler = standard_scaler, feature_names = [], trained = False\<rparr>"

definition OverfishingRiskModel_train ::
  "('m, 's, 'x, 'y, 'd) sklearn \<Rightarrow> 'x \<Rightarrow> 'y \<Rightarrow> (('m, 's) ml_model, real) py_method" where
  "OverfishingRiskModel_train lib X y =
     then_do (call (train_test_split lib X y True)) (\<lambda>(X_train, X_test, y_train, y_test).
     then_do (scaler_fit_transform lib X_train) (\<lambda>X_train_scaled.
     then_do (\<lambda>s. call (transform lib (scaler s) X_test) s) (\<lambda>X_test_scaled.
     then_do (model_fit lib X_train_scaled y_train) (\<lambda>_.
     then_do (\<lambda>s. call (score lib (model s) X_train_scaled y_train) s) (\<lambda>train_score.
     then_do (\<lambda>s. call (score lib (model s) X_test_scaled y_test) s) (\<lambda>test_score.
     then_do (\<lambda>s. call (predict lib (model s) X_test_scaled) s) (\<lambda>y_pred.
     then_do (call (classification_report lib y_test y_pred)) (\<lambda>_.
     then_do (\<lambda>s. importance_frame (feature_importances lib (model s)) s) (\<lambda>feature_imp_df.
     then_do set_trained (\<lambda>_.
     return_value test_score))))))))))"

definition OverfishingRiskModel_predict_risk ::
  "('m, 's, 'x, 'y, 'd) sklearn \<Rightarrow> 'x \<Rightarrow> (('m, 's) ml_model, real list) py_method" where
  "OverfishingRiskModel_predict_risk lib X s =
     (if \<not> trained s then (Inl (ValueError ''Model must be trained before prediction''), s)
      else
        then_do (\<lambda>s. call (transform lib (scaler s) X) s) (\<lambda>X_scaled.
        then_do (\<lambda>s. call (predict_proba lib (model s) X_scaled) s) (\<lambda>probabilities.
        return_value (map snd probabilities))) s)"

definition JuvenileCatchForecastModel_init :: "'m \<Rightarrow> 's \<Rightarrow> ('m, 's) ml_model" where
  "JuvenileCatchForecastModel_init regressor standard_scaler =
     \<lparr>model = regressor, scaler = standard_scaler, feature_names = [], trained = False\<rparr>"

definition JuvenileCatchForecastModel_train ::
  "('m, 's, 'x, 'y, 'd) sklearn \<Rightarrow> 'x \<Rightarrow> 'y \<Rightarrow> (('m, 's) ml_model, real) py_method" where
  "JuvenileCatchForecastModel_train lib X y =
     then_do (call (train_test_split lib X y False)) (\<lambda>(X_train, X_test, y_train, y_test).
     then_do (scaler_fit_transform lib X_train) (\<lambda>X_train_scaled.
     then_do (\<lambda>s. call (transform lib (scaler s) X_test) s) (\<lambda>X_test_scaled.
     then_do (model_fit lib X_train_scaled y_train) (\<lambda>_.
     then_do (\<lambda>s. call (score lib (model s) X_train_scaled y_train) s) (\<lambda>train_score.
     then_do (\<lambda>s. call (score lib (model s) X_test_scaled y_test) s) (\<lambda>test_score.
     then_do (\<lambda>s. call (predict lib (model s) X_test_scaled) s) (\<lambda>y_pred.
     then_do (call (mean_squared_error lib y_test y_pred)) (\<lambda>mse.
     then_do (\<lambda>s. importance_frame (feature_importances lib (model s)) s) (\<lambda>feature_imp_df.
     then_do set_trained (\<lambda>_.
     return_value test_score))))))))))"

definition JuvenileCatchForecastModel_forecast ::
  "('m, 's, 'x, 'y, 'd) sklearn \<Rightarrow> 'x \<Rightarrow> int \<Rightarrow> (('m, 's) ml_model, 'd list \<times> 'y) py_method" where
  "JuvenileCatchForecastModel_forecast lib X days s =
     (if \<not> trained s then (Inl (ValueError ''Model must be trained before forecasting''), s)
      else
        then_do (\<lambda>s. call (transform lib (scaler s) X) s) (\<lambda>X_scaled.
        then_do (\<lambda>s. call (predict lib (model s) X_scaled) s) (\<lambda>forecast.
        then_do (call (date_range lib days)) (\<lambda>dates.
        return_value (dates, forecast)))) s)"

text \<open>
  \<open>prepare_training_data\<close> reads the processed files; when it finds the target field
  it stores the feature names and returns the cleaned matrix and target, and it returns
  \<open>(None, None)\<close> otherwise. What it found is the argument. \<open>save_model\<close> writes
  the four attributes to disk and changes none of them.
\<close>

definition prepare_training_data ::
  "(string list \<times> 'x \<times> 'y) option \<Rightarrow> (('m, 's) ml_model, ('x \<times> 'y) option) py_method" where
  "prepare_training_data found s =
     (case found of
        Some (names, X, y) \<Rightarrow> (Inr (Some (X, y)), s\<lparr>feature_names := names\<rparr>)
      | None \<Rightarrow> (Inr None, s))"

definition save_model :: "string + unit \<Rightarrow> (('m, 's) ml_model, unit) py_method" where
  "save_model written = call written"

text \<open>
  The life of a model object: a sequence of method calls on it, each with its arguments,
  run from the freshly constructed object. \<open>run\<close> returns the outcome of every call
  and the object after the last one.
\<close>

datatype model_class = OverfishingRisk | JuvenileCatch

datatype ('x, 'y) method_call =
    PrepareTrainingData "(string list \<times> 'x \<times> 'y) option"
  | Train 'x 'y
  | Predict 'x int
  | SaveModel "string + unit"

datatype ('x, 'y, 'd) method_result =
    TrainingData "('x \<times> 'y) option"
  | Score real
  | Probabilities "real list"
  | Forecast "'d list \<times> 'y"
  | Saved

fun invoke ::
  "('m, 's, 'x, 'y, 'd) sklearn \<Rightarrow> model_class \<Rightarrow> ('x, 'y) method_call
     \<Rightarrow> (('m, 's) ml_model, ('x, 'y, 'd) method_result) py_method" where
  "invoke lib c (PrepareTrainingData found) =
     then_do (prepare_training_data found) (\<lambda>d. return_value (TrainingData d))"
| "invoke lib OverfishingRisk (Train X y) =
     then_do (OverfishingRiskModel_train lib X y) (\<lambda>r. return_value (Score r))"
| "invoke lib JuvenileCatch (Train X y) =
     then_do (JuvenileCatchForecastModel_train lib X y) (\<lambda>r. return_value (Score r))"
| "invoke lib OverfishingRisk (Predict X days) =
     then_do (OverfishingRiskModel_predict_risk lib X) (\<lambda>p. return_value (Probabilities p))"
| "invoke lib JuvenileCatch (Predict X days) =
     then_do (JuvenileCatchForecastModel_forecast lib X days) (\<lambda>f. return_value (Forecast f))"
| "invoke lib c (SaveModel written) =
     then_do (save_model written) (\<lambda>_. return_value Saved)"

fun run ::
  "('m, 's, 'x, 'y, 'd) sklearn \<Rightarrow> model_class \<Rightarrow> ('m, 's) ml_model \<Rightarrow> ('x, 'y) method_call list
     \<Rightarrow> (py_error + ('x, 'y, 'd) method_result) list \<times> ('m, 's) ml_model" where
  "run lib c s [] = ([], s)"
| "run lib c s (m # ms) =
     (case invoke lib c m s of
        (r, s') \<Rightarrow> (case run lib c s' ms of (rs, s'') \<Rightarrow> (r # rs, s'')))"

fun is_train :: "('x, 'y) method_call \<Rightarrow> bool" where
  "is_train (Train X y) = True"
| "is_train _ = False"

definition train_succeeded ::
  "('x, 'y) method_call list \<Rightarrow> (py_error + 'r) list \<Rightarrow> bool" where
  "train_succeeded calls outcomes = list_ex (\<lambda>(m, r). is_train m \<and> \<not> isl r) (zip calls outcomes)"

text \<open>
  A small instance of the library interface, on which the methods can be evaluated:
  matrices, targets, estimators and scalers are numbers, and splitting an empty
  matrix (the number 0) raises.
\<close>

definition toy_sklearn :: "(nat, nat, nat, nat, int) sklearn" where
  "toy_sklearn =
     \<lparr>train_test_split = (\<lambda>X y stratify. if X = 0 then Inl ''empty'' else Inr (X, X, y, y)),
      fit_transform = (\<lambda>s X. (X, Inr X)),
      transform = (\<lambda>s X. Inr X),
      fit = (\<lambda>m X y. (X, Inr ())),
      score = (\<lambda>m X y. Inr 1),
      predict = (\<lambda>m X. Inr m),
      predict_proba = (\<lambda>m X. Inr [(1 / 2, 1 / 2)]),
      classification_report = (\<lambda>y_test y_pred. Inr ()),
      mean_squared_error = (\<lambda>y_test y_pred. Inr 0),
      feature_importances = (\<lambda>m. []),
      date_range = (\<lambda>days. if days < 0 then Inl ''negative periods'' else Inr [0..days - 1])\<rparr>"

subsection \<open>MPA proximity flagging (\<open>data_processing.py\<close>, \<open>detect_illegal_fishing_patterns\<close>)\<close>

text \<open>
  The part of \<open>detect_illegal_fishing_patterns\<close> after the clustering. A cluster is a
  DBSCAN label with the effort hours of its cells and the centroid shapely computed for
  it; label \<open>-1\<close> is noise. An MPA row has its attribute columns and a geometry.
  \<open>cluster_centroid.distance(mpa.geometry.boundary)\<close> is shapely's: it is the
  parameter \<open>distance\<close>, and \<open>None\<close> is the case where the call raises, which the
  \<open>except\<close> clause answers with \<open>continue\<close>.
\<close>

record 'c cluster =
  label :: int
  effort :: "real list"
  centroid :: 'c

record 'g mpa_row =
  attrs :: "string \<rightharpoonup> string"
  geometry :: 'g

record suspect =
  cluster_id :: int
  n_vessels :: nat
  total_effort_hours :: real
  near_mpa :: string
  risk_score :: real

text \<open>\<open>mpa.get('NAME', mpa.get('name', mpa.get('WDPAID', 'Unknown')))\<close>\<close>

definition mpa_name :: "'g mpa_row \<Rightarrow> string" where
  "mpa_name mpa =
     (case attrs mpa ''NAME'' of
        Some n \<Rightarrow> n
      | None \<Rightarrow>
          (case attrs mpa ''name'' of
             Some n \<Rightarrow> n
           | None \<Rightarrow> (case attrs mpa ''WDPAID'' of Some n \<Rightarrow> n | None \<Rightarrow> ''Unknown'')))"

text \<open>
  The loop \<open>for idx, mpa in mpa_gdf.iterrows()\<close> for one cluster: the first row whose
  boundary is closer than 0.05 gives the record, and \<open>break\<close> ends the loop.
\<close>

fun check_mpa_proximity ::
  "('c \<Rightarrow> 'g \<Rightarrow> real option) \<Rightarrow> 'c cluster \<Rightarrow> 'g mpa_row list \<Rightarrow> suspect option" where
  "check_mpa_proximity distance cl [] = None"
| "check_mpa_proximity distance cl (mpa # rest) =
     (case distance (centroid cl) (geometry mpa) of
        None \<Rightarrow> check_mpa_proximity distance cl rest
      | Some d \<Rightarrow>
          if d < 0.05
          then Some \<lparr>cluster_id = label cl,
                     n_vessels = length (effort cl),
                     total_effort_hours = sum_list (effort cl),
                     near_mpa = mpa_name mpa,
                     risk_score = min 1 (1 - (d * 20))\<rparr>
          else check_mpa_proximity distance cl rest)"

text \<open>
  The loop over the cluster labels; \<open>mpa_gdf\<close> is \<open>None\<close> when \<open>'mpa'\<close> is not among
  the loaded datasets.
\<close>

definition suspicious_clusters ::
  "('c \<Rightarrow> 'g \<Rightarrow> real option) \<Rightarrow> 'g mpa_row list option \<Rightarrow> 'c cluster list \<Rightarrow> suspect list" where
  "suspicious_clusters distance mpa_gdf clusters =
     (case mpa_gdf of
        None \<Rightarrow> []
      | Some mpas \<Rightarrow>
          if length mpas > 0
          then List.map_filter
                 (\<lambda>cl. if label cl = - 1 then None else check_mpa_proximity distance cl mpas)
                 clusters
          else [])"

text \<open>
  The distances of a centroid to the boundaries that could be computed, in row order;
  the first of them below the threshold, which is what the loop reports; and the
  smallest of them below the threshold, which is what the specification names.
\<close>

definition boundary_distances :: "('c \<Rightarrow> 'g \<Rightarrow> real option) \<Rightarrow> 'c \<Rightarrow> 'g mpa_row list \<Rightarrow> real list" where
  "boundary_distances distance c mpas = List.map_filter (\<lambda>mpa. distance c (geometry mpa)) mpas"

definition first_qualifying_distance ::
  "('c \<Rightarrow> 'g \<Rightarrow> real option) \<Rightarrow> 'c \<Rightarrow> 'g mpa_row list \<Rightarrow> real option" where
  "first_qualifying_distance distance c mpas =
     (case filter (\<lambda>d. d < 0.05) (boundary_distances distance c mpas) of
        [] \<Rightarrow> None
      | d # _ \<Rightarrow> Some d)"

definition nearest_qualifying_distance ::
  "('c \<Rightarrow> 'g \<Rightarrow> real option) \<Rightarrow> 'c \<Rightarrow> 'g mpa_row list \<Rightarrow> real option" where
  "nearest_qualifying_distance distance c mpas =
     (case filter (\<lambda>d. d < 0.05) (boundary_distances distance c mpas) of
        [] \<Rightarrow> None
      | d # ds \<Rightarrow> Some (fold min ds d))"

subsection \<open>Current speed and direction (\<open>process_data_script.py\<close>, \<open>calculate_current_speed\<close>)\<close>

text \<open>
  \<open>np.arctan2(y, x)\<close>, the quadrant-aware arc tangent, by the usual case analysis
  over \<open>arctan\<close>; \<open>np.arctan2(0, 0) = 0\<close>.
\<close>

definition arctan2 :: "real \<Rightarrow> real \<Rightarrow> real" where
  "arctan2 y x =
     (if 0 < x then arctan (y / x)
      else if x < 0 \<and> 0 \<le> y then arctan (y / x) + pi
      else if x < 0 \<and> y < 0 then arctan (y / x) - pi
      else if 0 < y then pi / 2
      else if y < 0 then - pi / 2
      else 0)"

text \<open>The operator \<open>%\<close> on floats: the remainder has the sign of the divisor.\<close>

definition py_mod :: "real \<Rightarrow> real \<Rightarrow> real" where
  "py_mod x m = x - m * of_int \<lfloor>x / m\<rfloor>"

text \<open>
  The two component fields \<open>uo\<close> and \<open>vo\<close> are on the same grid: a field is the list
  of its cells, and the arithmetic is cell by cell. \<open>None\<close> is the case
  \<open>'currents' not in self.raw_data\<close>. The result is the pair of the fields stored
  as \<open>current_speed\<close> and \<open>current_direction\<close>.
\<close>

definition calculate_current_speed ::
  "(real list \<times> real list) option \<Rightarrow> (real list \<times> real list) option" where
  "calculate_current_speed currents =
     (case currents of
        None \<Rightarrow> None
      | Some (u, v) \<Rightarrow>
          (let speed = map2 (\<lambda>u v. sqrt (u\<^sup>2 + v\<^sup>2)) u v;
               direction = map2 (\<lambda>u v. arctan2 v u * 180 / pi) u v;
               direction = map (\<lambda>d. py_mod (d + 360) 360) direction
           in Some (speed, direction)))"

text \<open>
  What it means for \<open>a\<close> degrees to be the angle of the vector \<open>(u, v)\<close> measured from
  east (the positive \<open>u\<close> axis): turning the east direction by \<open>a\<close> degrees gives the
  direction of the vector. Turning counterclockwise takes east to
  \<open>(cos a, sin a)\<close>; turning clockwise takes it to \<open>(cos a, - sin a)\<close>.
\<close>

definition counterclockwise_from_east :: "real \<Rightarrow> real \<Rightarrow> real \<Rightarrow> bool" where
  "counterclockwise_from_east u v a =
     (u = sqrt (u\<^sup>2 + v\<^sup>2) * cos (a * pi / 180) \<and> v = sqrt (u\<^sup>2 + v\<^sup>2) * sin (a * pi / 180))"

definition clockwise_from_east :: "real \<Rightarrow> real \<Rightarrow> real \<Rightarrow> bool" where
  "clockwise_from_east u v a =
     (u = sqrt (u\<^sup>2 + v\<^sup>2) * cos (a * pi / 180) \<and> v = - sqrt (u\<^sup>2 + v\<^sup>2) * sin (a * pi / 180))"

text \<open>
  The oceanographic convention that the comment in the method names: the bearing
  towards which the current flows, in degrees clockwise from north.
\<close>

definition clockwise_from_north :: "real \<Rightarrow> real \<Rightarrow> real \<Rightarrow> bool" where
  "clockwise_from_north u v a =
     (u = sqrt (u\<^sup>2 + v\<^sup>2) * sin (a * pi / 180) \<and> v = sqrt (u\<^sup>2 + v\<^sup>2) * cos (a * pi / 180))"

subsection \<open>Temperature anomalies (\<open>process_data_script.py\<close>, \<open>calculate_sst_anomaly\<close>)\<close>

text \<open>
  The result of a float division, where the divisor can be zero: numpy gives NaN for
  \<open>0 / 0\<close> and an infinity for any other \<open>x / 0\<close>, and raises nothing.
\<close>

datatype np_float = Finite real | NaN | PosInf | NegInf

definition true_divide :: "real \<Rightarrow> real \<Rightarrow> np_float" where
  "true_divide a b =
     (if b \<noteq> 0 then Finite (a / b)
      else if a = 0 then NaN
      else if 0 < a then PosInf
      else NegInf)"

text \<open>
  The temperature field \<open>thetao\<close>: the month of every time step, and for every cell
  its series of values over the time steps. \<open>groupby('time.month')\<close> collects, for a
  cell, the values of the time steps of one month; \<open>mean('time')\<close> and
  \<open>std('time')\<close> are the mean and the population standard deviation (\<open>ddof = 0\<close>) of
  such a group. A group is never empty: the months are those of the time axis.
\<close>

record sst_field =
  months :: "nat list"
  cells :: "real list list"

definition month_group :: "nat list \<Rightarrow> real list \<Rightarrow> nat \<Rightarrow> real list" where
  "month_group ms series m = map snd (filter (\<lambda>(m', x). m' = m) (zip ms series))"

definition mean :: "real list \<Rightarrow> real" where
  "mean xs = sum_list xs / real (length xs)"

definition std :: "real list \<Rightarrow> real" where
  "std xs = sqrt (mean (map (\<lambda>x. (x - mean xs)\<^sup>2) xs))"

record sst_products =
  sst_anomaly :: "real list list"
  sst_standardized :: "np_float list list"
  sst_climatology :: "(nat \<Rightarrow> real) list"

text \<open>
  \<open>calculate_sst_anomaly\<close>: every operation is cell by cell. \<open>None\<close> is the case
  \<open>'sst' not in self.raw_data\<close>.
\<close>

definition calculate_sst_anomaly :: "sst_field option \<Rightarrow> sst_products option" where
  "calculate_sst_anomaly raw_sst =
     (case raw_sst of
        None \<Rightarrow> None
      | Some sst \<Rightarrow>
          (let climatology = (\<lambda>series m. mean (month_group (months sst) series m));
               anomaly = (\<lambda>series. map2 (\<lambda>m x. x - climatology series m) (months sst) series);
               sst_std = (\<lambda>series m. std (month_group (months sst) series m));
               standardized =
                 (\<lambda>series. map2 (\<lambda>m x. true_divide (x - climatology series m) (sst_std series m))
                             (months sst) series)
           in Some \<lparr>sst_anomaly = map anomaly (cells sst),
                     sst_standardized = map standardized (cells sst),
                     sst_climatology = map climatology (cells sst)\<rparr>))"

subsection \<open>Risk composer (\<open>calculate_overfishing_risk_index\<close>, \<open>calculate_multifactor_risk_index\<close>)\<close>

text \<open>
  A risk-factor field is the list of its cells; a cell holds a number or NaN (\<open>None\<close>:
  a land cell, a cell without data, the result of \<open>0 / 0\<close>). All the fields of one call
  are on the same grid, so arithmetic between fields is cell by cell, and NaN in an
  operand gives NaN. An infinity is not represented.
\<close>

type_synonym field = "real option list"

definition cell_add :: "real option \<Rightarrow> real option \<Rightarrow> real option" where
  "cell_add a b = (case (a, b) of (Some x, Some y) \<Rightarrow> Some (x + y) | _ \<Rightarrow> None)"

definition field_add :: "field \<Rightarrow> field \<Rightarrow> field" where
  "field_add f g = map2 cell_add f g"

definition field_scale :: "field \<Rightarrow> real \<Rightarrow> field" where
  "field_scale f w = map (map_option (\<lambda>x. x * w)) f"

definition field_div :: "field \<Rightarrow> real \<Rightarrow> field" where
  "field_div f w = map (map_option (\<lambda>x. x / w)) f"

text \<open>
  \<open>risk.min()\<close> and \<open>risk.max()\<close> of an xarray field skip the NaN cells; the result
  is NaN when every cell is NaN, and the reduction of a field without cells raises
  ValueError.
\<close>

definition valid_values :: "field \<Rightarrow> real list" where
  "valid_values f = List.map_filter (\<lambda>c. c) f"

definition field_min :: "field \<Rightarrow> py_error + real option" where
  "field_min f =
     (if f = [] then Inl (ValueError ''zero-size array to reduction operation'')
      else Inr (case valid_values f of [] \<Rightarrow> None | v # vs \<Rightarrow> Some (fold min vs v)))"

definition field_max :: "field \<Rightarrow> py_error + real option" where
  "field_max f =
     (if f = [] then Inl (ValueError ''zero-size array to reduction operation'')
      else Inr (case valid_values f of [] \<Rightarrow> None | v # vs \<Rightarrow> Some (fold max vs v)))"

text \<open>
  The body of the loop \<open>for key, risk in risk_components.items()\<close>, the same in both
  variants. A comparison with NaN is false, so a field of NaN cells only takes the
  \<open>else\<close> branch.
\<close>

definition normalize_component :: "field \<Rightarrow> py_error + field" where
  "normalize_component risk =
     (case field_min risk of
        Inl e \<Rightarrow> Inl e
      | Inr risk_min \<Rightarrow>
          (case field_max risk of
             Inl e \<Rightarrow> Inl e
           | Inr risk_max \<Rightarrow>
               (case (risk_min, risk_max) of
                  (Some mn, Some mx) \<Rightarrow>
                    if mx > mn
                    then Inr (map (map_option (\<lambda>x. (x - mn) / (mx - mn))) risk)
                    else Inr (field_scale risk 0)
                | _ \<Rightarrow> Inr (field_scale risk 0))))"

fun normalize_all :: "(string \<times> field) list \<Rightarrow> py_error + (string \<times> field) list" where
  "normalize_all [] = Inr []"
| "normalize_all ((key, risk) # rest) =
     (case normalize_component risk of
        Inl e \<Rightarrow> Inl e
      | Inr n \<Rightarrow>
          (case normalize_all rest of
             Inl e \<Rightarrow> Inl e
           | Inr ns \<Rightarrow> Inr ((key, n) # ns)))"

text \<open>
  Python's \<open>sum\<close> over fields starts from the number 0 and adds from the left;
  \<open>0 + f\<close> is \<open>f\<close>. Both variants call it on a non-empty dictionary only.
\<close>

fun field_sum :: "field list \<Rightarrow> field option" where
  "field_sum [] = None"
| "field_sum (f # fs) = Some (foldl field_add f fs)"

datatype risk_level = low | medium | high

text \<open>
  \<open>xr.where(risk_index < 0.3, 'low', xr.where(risk_index < 0.6, 'medium', 'high'))\<close>;
  the advanced variant writes 1, 2, 3 for the three levels.
\<close>

definition classify :: "real option \<Rightarrow> risk_level" where
  "classify r =
     (case r of
        None \<Rightarrow> high
      | Some x \<Rightarrow> if x < 0.3 then low else if x < 0.6 then medium else high)"



definition weights_get :: "(string \<rightharpoonup> real) \<Rightarrow> string \<Rightarrow> real \<Rightarrow> real" where
  "weights_get weights key dflt = (case weights key of None \<Rightarrow> dflt | Some w \<Rightarrow> w)"



text \<open>
  \<open>calculate_multifactor_risk_index\<close> of \<open>data_processing.py\<close>. The environmental
  stress and the connectivity risk are the fields the method derives from the
  temperature and the connectivity data; the fishing and the MPA datasets only add a
  weight, their fields are not computed. Every key of \<open>risk_components\<close> is given
  its weight where its field is stored, so \<open>weights[key]\<close> finds it and the default
  of \<open>weights_get\<close> is never taken.
\<close>

definition multifactor_components ::
  "field option \<Rightarrow> field option \<Rightarrow> field option \<Rightarrow> (string \<times> field) list" where
  "multifactor_components env_stress habitat_quality connectivity_risk =
     (case env_stress of None \<Rightarrow> [] | Some f \<Rightarrow> [(''environmental_stress'', f)])
     @ (case habitat_quality of
          None \<Rightarrow> []
        | Some f \<Rightarrow> [(''habitat_degradation'', map (map_option (\<lambda>q. 1 - q)) f)])
     @ (case connectivity_risk of
          None \<Rightarrow> []
        | Some f \<Rightarrow> [(''connectivity_disruption'', f)])"

definition multifactor_weights ::
  "field option \<Rightarrow> bool \<Rightarrow> field option \<Rightarrow> field option \<Rightarrow> bool \<Rightarrow> (string \<times> real) list" where
  "multifactor_weights env_stress fishing habitat_quality connectivity_risk mpa =
     (case env_stress of None \<Rightarrow> [] | Some f \<Rightarrow> [(''environmental_stress'', 0.2)])
     @ (if fishing then [(''fishing_pressure'', 0.3)] else [])
     @ (case habitat_quality of None \<Rightarrow> [] | Some f \<Rightarrow> [(''habitat_degradation'', 0.2)])
     @ (case connectivity_risk of None \<Rightarrow> [] | Some f \<Rightarrow> [(''connectivity_disruption'', 0.15)])
     @ (if mpa then [(''protection_gap'', 0.15)] else [])"

definition calculate_multifactor_risk_index ::
  "field option \<Rightarrow> bool \<Rightarrow> field option \<Rightarrow> field option \<Rightarrow> bool
     \<Rightarrow> py_error + (field \<times> risk_level list) option" where
  "calculate_multifactor_risk_index env_stress fishing habitat_quality connectivity_risk mpa =
     (let risk_components = multifactor_components env_stress habitat_quality connectivity_risk;
          weights = multifactor_weights env_stress fishing habitat_quality connectivity_risk mpa
      in if risk_components = [] then Inr None
         else
           (case normalize_all risk_components of
              Inl e \<Rightarrow> Inl e
            | Inr normalized_components \<Rightarrow>
                (let total_weight = sum_list (map snd weights) in
                 case field_sum
                        (map (\<lambda>(key, n).
                                field_div (field_scale n (weights_get (map_of weights) key 0))
                                  total_weight)
                             normalized_components) of
                   None \<Rightarrow> Inr None
                 | Some risk_index \<Rightarrow> Inr (Some (risk_index, map classify risk_index)))))"

text \<open>
  The combined value the specification names, at cell \<open>i\<close>: the weighted sum of the
  normalized factors divided by the sum of the weights of the factors present.
\<close>

definition renormalized_weighted_sum :: "(string \<Rightarrow> real) \<Rightarrow> (string \<times> field) list \<Rightarrow> nat \<Rightarrow> real" where
  "renormalized_weighted_sum w normalized i =
     sum_list (map (\<lambda>(key, n). the (n ! i) * w key) normalized)
       / sum_list (map (\<lambda>(key, n). w key) normalized)"


section \<open>Properties\<close>

subsection \<open>MPA coverage\<close>

text \<open>
  Claim C8. For every MPA record set the coverage percentage is the total projected
  area in square kilometres, divided by the constant 2.5e6 and multiplied by 100; a
  total of 125,000 square kilometres gives exactly 5.
\<close>

theorem mpa_coverage_percentage:
  "\<exists>st. calculate_mpa_coverage (Some areas) = Some st
      \<and> total_mpa_area_km2 st = sum_list areas / 1000000
      \<and> coverage_percentage st = total_mpa_area_km2 st / 2500000 * 100
      \<and> (total_mpa_area_km2 st = 125000 \<longrightarrow> coverage_percentage st = 5)"
  by (simp add: calculate_mpa_coverage_def Let_def)

theorem mpa_coverage_percentage_witness:
  "\<exists>st. calculate_mpa_coverage (Some [100000000000, 25000000000]) = Some st
      \<and> total_mpa_area_km2 st = 125000 \<and> coverage_percentage st = 5"
  using mpa_coverage_percentage [of "[100000000000, 25000000000]"] by auto

subsection \<open>Scenario simulator\<close>

text \<open>
  A bound on \<open>exp (-1.4)\<close> from the Maclaurin expansion of the exponential with eight
  terms and the remainder bounded through \<open>exp 1 \<le> 3\<close>.
\<close>

lemma exp_neg_14_bounds: "0.2462 \<le> exp (- 1.4 :: real) \<and> exp (- 1.4 :: real) \<le> 0.2497"
proof -
  obtain t :: real where t: "\<bar>t\<bar> \<le> \<bar>- 1.4\<bar>"
    and e: "exp (- 1.4 :: real) = (\<Sum>m<8. (- 1.4) ^ m / fact m) + exp t / fact 8 * (- 1.4) ^ 8"
    using Maclaurin_exp_le [of "- 1.4" 8] by blast
  define y where "y = exp t"
  have "exp t \<le> exp 2" using t by simp
  also have "exp (2::real) = exp 1 * exp 1" by (simp flip: exp_add)
  also have "\<dots> \<le> 3 * 3" by (intro mult_mono exp_le) simp_all
  finally have ub: "y \<le> 9" by (simp add: y_def)
  have lb: "0 \<le> y" by (simp add: y_def)
  have s: "(\<Sum>m<8. (- 1.4 :: real) ^ m / fact m) = 865831/3515625" 
    by (simp add: lessThan_nat_numeral lessThan_Suc fact_numeral eval_nat_numeral)
  have r: "exp t / fact 8 * (- 1.4) ^ 8 = y * (823543/2250000000)"
    by (simp add: fact_numeral eval_nat_numeral y_def)
  have "exp (- 1.4 :: real) = 865831/3515625 + y * (823543/2250000000)"
    by (simp only: e s r)
  then show ?thesis using ub lb by simp
qed

lemma final_stock_bound:
  "\<bar>1.5 / (1 + 1.5 * exp (- 1.4 :: real)) - 1.095\<bar> \<le> 0.01"
proof -
  define e where "e = exp (- 1.4 :: real)"
  define q where "q = 1.5 / (1 + 1.5 * e)"
  have b: "0.2462 \<le> e" "e \<le> 0.2497" using exp_neg_14_bounds by (simp_all add: e_def)
  have pos: "0 < 1 + 1.5 * e" using b by simp
  have "1.085 \<le> q" using b pos by (simp add: q_def field_simps)
  moreover have "q \<le> 1.105" using b pos by (simp add: q_def field_simps)
  ultimately have "\<bar>q - 1.095\<bar> \<le> 0.01" unfolding abs_le_iff by simp
  then show ?thesis by (simp only: q_def e_def)
qed

text \<open>
  With a loaded baseline and a non-negative number of years the simulation returns a
  scenario; its stock array is the logistic curve over the years \<open>0, ..., yrs\<close>.
\<close>

lemma simulate_expansion_ok:
  assumes "baseline_coverage sim = Some b" "0 \<le> yrs"
  shows "\<exists>sc sim'. simulate_expansion sim p yrs = Inr (sc, sim')
     \<and> years sc = [0..yrs]
     \<and> stock_recovery sc = map (\<lambda>t. 1.5 / (1 + 1.5 * exp (- (0.07 * (p / 10)) * real_of_int t))) [0..yrs]
     \<and> final_stock_level sc = last (stock_recovery sc)"
proof -
  have ne: "[0..yrs] \<noteq> []" using assms(2) by (simp add: upto_rec1)
  show ?thesis using assms(1) ne
    by (simp add: simulate_expansion_def Let_def)
qed


lemma stock_nth:
  assumes "baseline_coverage sim = Some b" "0 \<le> t" "t \<le> yrs"
  shows "\<exists>sc sim'. simulate_expansion sim p yrs = Inr (sc, sim')
     \<and> length (stock_recovery sc) = nat (yrs + 1)
     \<and> stock_recovery sc ! nat t = 1.5 / (1 + 1.5 * exp (- (0.07 * (p / 10)) * real_of_int t))
     \<and> final_stock_level sc = stock_recovery sc ! nat yrs"
proof -
  have y: "0 \<le> yrs" using assms by simp
  obtain sc sim' where s: "simulate_expansion sim p yrs = Inr (sc, sim')"
    and st: "stock_recovery sc = map (\<lambda>t. 1.5 / (1 + 1.5 * exp (- (0.07 * (p / 10)) * real_of_int t))) [0..yrs]"
    and fin: "final_stock_level sc = last (stock_recovery sc)"
    using simulate_expansion_ok [OF assms(1) y, of p] by blast
  have len: "length (stock_recovery sc) = nat (yrs + 1)" by (simp add: st)
  have n: "nat t < length [0..yrs]" using assms by simp
  have u: "[0..yrs] ! nat t = t" using assms by (simp add: nth_upto)
  have nt: "stock_recovery sc ! nat t = 1.5 / (1 + 1.5 * exp (- (0.07 * (p / 10)) * real_of_int t))"
    unfolding st using n u by (simp only: nth_map)
  have ne: "stock_recovery sc \<noteq> []" using len y by auto
  have "last (stock_recovery sc) = stock_recovery sc ! (length (stock_recovery sc) - 1)"
    using ne by (rule last_conv_nth)
  also have "length (stock_recovery sc) - 1 = nat yrs" using len y by simp
  finally have "final_stock_level sc = stock_recovery sc ! nat yrs" using fin by simp
  then show ?thesis using s len nt by blast
qed

lemma logistic_mono:
  fixes a b :: real
  assumes "a \<le> b"
  shows "1.5 / (1 + 1.5 * exp (- a)) \<le> (1.5 / (1 + 1.5 * exp (- b)) :: real)"
proof -
  have e: "exp (- b) \<le> exp (- a)" using assms by simp
  have pa: "0 < 1 + 1.5 * exp (- a)" and pb: "0 < 1 + 1.5 * exp (- b)"
    by (simp_all add: add_pos_nonneg)
  have "1 + 1.5 * exp (- b) \<le> 1 + 1.5 * exp (- a)" using e by simp
  then show ?thesis using pa pb by (simp add: frac_le)
qed

lemma logistic_range:
  fixes a :: real
  assumes "0 \<le> a"
  shows "0.6 \<le> 1.5 / (1 + 1.5 * exp (- a)) \<and> 1.5 / (1 + 1.5 * exp (- a)) < (1.5 :: real)"
proof -
  define e where "e = exp (- a)"
  have e: "0 < e" "e \<le> 1" using assms by (simp_all add: e_def)
  have "0.6 \<le> 1.5 / (1 + 1.5 * e)" using e by (simp add: field_simps)
  moreover have "1.5 / (1 + 1.5 * e) < 1.5" using e by (simp add: field_simps)
  ultimately show ?thesis by (simp only: e_def)
qed


text \<open>
  Claim C3. For every expansion percentage \<open>p\<close> and year \<open>t\<close> of the simulated range
  the stock recovery is \<open>K / (1 + ((K - 0.6) / 0.6) * exp (- r * t))\<close> with \<open>K = 1.5\<close>
  and \<open>r = 0.07 * (p / 10)\<close>; with baseline coverage 5.0, expansion 20 and ten years
  the final stock level is within 0.01 of 1.095.
\<close>

theorem stock_recovery_closed_form:
  "(baseline_coverage sim = Some b \<and> 0 \<le> t \<and> t \<le> yrs \<longrightarrow>
      (\<exists>sc sim'. simulate_expansion sim p yrs = Inr (sc, sim')
         \<and> length (stock_recovery sc) = nat (yrs + 1)
         \<and> stock_recovery sc ! nat t =
             1.5 / (1 + ((1.5 - 0.6) / 0.6) * exp (- (0.07 * (p / 10)) * real_of_int t))))
   \<and> (baseline_coverage sim = Some 5 \<longrightarrow>
      (\<exists>sc sim'. simulate_expansion sim 20 10 = Inr (sc, sim')
         \<and> final_stock_level sc = stock_recovery sc ! 10
         \<and> \<bar>final_stock_level sc - 1.095\<bar> \<le> 0.01))"
proof (intro conjI impI)
  assume a: "baseline_coverage sim = Some b \<and> 0 \<le> t \<and> t \<le> yrs"
  have k: "((1.5 - 0.6) / 0.6 :: real) = 1.5" by simp
  show "\<exists>sc sim'. simulate_expansion sim p yrs = Inr (sc, sim')
         \<and> length (stock_recovery sc) = nat (yrs + 1)
         \<and> stock_recovery sc ! nat t =
             1.5 / (1 + ((1.5 - 0.6) / 0.6) * exp (- (0.07 * (p / 10)) * real_of_int t))"
    unfolding k using stock_nth [of sim b t yrs p] a by blast
next
  assume a: "baseline_coverage sim = Some 5"
  obtain sc sim' where s: "simulate_expansion sim 20 10 = Inr (sc, sim')"
    and nt: "stock_recovery sc ! nat 10 = 1.5 / (1 + 1.5 * exp (- (0.07 * (20 / 10)) * real_of_int 10))"
    and fin: "final_stock_level sc = stock_recovery sc ! nat 10"
    using stock_nth [OF a, of 10 10 20] by auto
  have "(- (0.07 * (20 / 10)) * real_of_int 10 :: real) = - 1.4" by simp
  then have "final_stock_level sc = 1.5 / (1 + 1.5 * exp (- 1.4))"
    using nt fin by simp
  then have "\<bar>final_stock_level sc - 1.095\<bar> \<le> 0.01"
    using final_stock_bound by simp
  then show "\<exists>sc sim'. simulate_expansion sim 20 10 = Inr (sc, sim')
         \<and> final_stock_level sc = stock_recovery sc ! 10
         \<and> \<bar>final_stock_level sc - 1.095\<bar> \<le> 0.01"
    using s fin by auto
qed

theorem stock_recovery_closed_form_witness:
  "\<exists>sc sim'. simulate_expansion (load_baseline MPASimulator_init None) 20 10 = Inr (sc, sim')
     \<and> length (stock_recovery sc) = 11
     \<and> stock_recovery sc ! 10 = 1.5 / (1 + ((1.5 - 0.6) / 0.6) * exp (- (0.07 * (20 / 10)) * 10))
     \<and> \<bar>final_stock_level sc - 1.095\<bar> \<le> 0.01"
proof -
  have b: "baseline_coverage (load_baseline MPASimulator_init None) = Some 5"
    by (simp add: load_baseline_def MPASimulator_init_def)
  show ?thesis
    using stock_recovery_closed_form [of "load_baseline MPASimulator_init None" 5 10 10 20] b
    by auto
qed

text \<open>
  Claim C4. At every fixed year \<open>t\<close> and for expansion percentages \<open>p1 \<le> p2\<close>, with
  the same baseline coverage and the same number of years, the stock recovery at year
  \<open>t\<close> under \<open>p2\<close> is at least the one under \<open>p1\<close>.
\<close>

theorem stock_recovery_monotone_in_expansion:
  "baseline_coverage sim1 = Some b \<Longrightarrow> baseline_coverage sim2 = Some b \<Longrightarrow>
   p1 \<le> p2 \<Longrightarrow> 0 \<le> t \<Longrightarrow> t \<le> yrs \<Longrightarrow>
   \<exists>sc1 sim1' sc2 sim2'.
      simulate_expansion sim1 p1 yrs = Inr (sc1, sim1')
    \<and> simulate_expansion sim2 p2 yrs = Inr (sc2, sim2')
    \<and> stock_recovery sc1 ! nat t \<le> stock_recovery sc2 ! nat t"
proof -
  assume a: "baseline_coverage sim1 = Some b" "baseline_coverage sim2 = Some b"
    "p1 \<le> p2" "0 \<le> t" "t \<le> yrs"
  obtain sc1 sim1' where s1: "simulate_expansion sim1 p1 yrs = Inr (sc1, sim1')"
    and n1: "stock_recovery sc1 ! nat t = 1.5 / (1 + 1.5 * exp (- (0.07 * (p1 / 10)) * real_of_int t))"
    using stock_nth [OF a(1) a(4) a(5), of p1] by blast
  obtain sc2 sim2' where s2: "simulate_expansion sim2 p2 yrs = Inr (sc2, sim2')"
    and n2: "stock_recovery sc2 ! nat t = 1.5 / (1 + 1.5 * exp (- (0.07 * (p2 / 10)) * real_of_int t))"
    using stock_nth [OF a(2) a(4) a(5), of p2] by blast
  have "0.07 * (p1 / 10) * real_of_int t \<le> 0.07 * (p2 / 10) * real_of_int t"
    using a(3) a(4) by (intro mult_right_mono) simp_all
  then have "stock_recovery sc1 ! nat t \<le> stock_recovery sc2 ! nat t"
    unfolding n1 n2
    using logistic_mono [of "0.07 * (p1 / 10) * real_of_int t" "0.07 * (p2 / 10) * real_of_int t"]
    by simp
  then show ?thesis using s1 s2 by blast
qed


theorem stock_recovery_monotone_in_expansion_witness:
  "\<exists>sc1 sim1' sc2 sim2'.
      simulate_expansion (load_baseline MPASimulator_init None) 10 10 = Inr (sc1, sim1')
    \<and> simulate_expansion (load_baseline MPASimulator_init None) 20 10 = Inr (sc2, sim2')
    \<and> stock_recovery sc1 ! 5 \<le> stock_recovery sc2 ! 5"
proof -
  have b: "baseline_coverage (load_baseline MPASimulator_init None) = Some 5"
    by (simp add: load_baseline_def MPASimulator_init_def)
  show ?thesis
    using stock_recovery_monotone_in_expansion [OF b b, of 10 20 5 10] by simp
qed

text \<open>
  In exact arithmetic, for every expansion percentage \<open>p \<ge> 0\<close> and \<open>yrs \<ge> 1\<close> the
  stock array starts at the initial stock 0.6, is nondecreasing from each year to the
  next, and stays strictly below the carrying capacity 1.5. The strict bound is a fact
  of exact arithmetic only: in doubles the capacity is reached (see the simulator in
  double precision below).
\<close>

lemma stock_recovery_exact_invariant:
  "baseline_coverage sim = Some b \<Longrightarrow> 0 \<le> p \<Longrightarrow> 1 \<le> yrs \<Longrightarrow>
   \<exists>sc sim'. simulate_expansion sim p yrs = Inr (sc, sim')
     \<and> stock_recovery sc ! 0 = 0.6
     \<and> (\<forall>i. Suc i < length (stock_recovery sc) \<longrightarrow>
            stock_recovery sc ! i \<le> stock_recovery sc ! Suc i)
     \<and> (\<forall>x \<in> set (stock_recovery sc). 0.6 \<le> x \<and> x < 1.5)"
proof -
  assume a: "baseline_coverage sim = Some b" "0 \<le> p" "1 \<le> yrs"
  define f where "f = (\<lambda>t. 1.5 / (1 + 1.5 * exp (- (0.07 * (p / 10)) * real_of_int t)) :: real)"
  have y: "0 \<le> yrs" using a(3) by simp
  obtain sc sim' where s: "simulate_expansion sim p yrs = Inr (sc, sim')"
    and st: "stock_recovery sc = map f [0..yrs]"
    unfolding f_def using simulate_expansion_ok [OF a(1) y, of p] by blast
  have r: "0 \<le> 0.07 * (p / 10)" using a(2) by simp
  have nth: "stock_recovery sc ! i = f (int i)" if "i < length (stock_recovery sc)" for i
  proof -
    have "i < length [0..yrs]" using that by (simp add: st)
    moreover from this have "[0..yrs] ! i = int i" by (simp add: nth_upto)
    ultimately show ?thesis unfolding st by (simp only: nth_map)
  qed
  have len: "0 < length (stock_recovery sc)" using y by (simp add: st)
  have z: "stock_recovery sc ! 0 = 0.6" using nth [OF len] by (simp add: f_def)
  have mono: "stock_recovery sc ! i \<le> stock_recovery sc ! Suc i"
    if "Suc i < length (stock_recovery sc)" for i
  proof -
    have i: "i < length (stock_recovery sc)" using that by simp
    have "0.07 * (p / 10) * real_of_int (int i) \<le> 0.07 * (p / 10) * real_of_int (int (Suc i))"
      using r by (intro mult_left_mono) simp_all
    then have "f (int i) \<le> f (int (Suc i))"
      unfolding f_def
      using logistic_mono [of "0.07 * (p / 10) * real_of_int (int i)"
                              "0.07 * (p / 10) * real_of_int (int (Suc i))"]
      by simp
    then show ?thesis using nth [OF i] nth [OF that] by simp
  qed
  have rng: "0.6 \<le> x \<and> x < 1.5" if "x \<in> set (stock_recovery sc)" for x
  proof -
    have "x \<in> f ` {0..yrs}" using that by (simp add: st)
    then obtain t where t: "0 \<le> t" and x: "x = f t" by auto
    from t have "0 \<le> 0.07 * (p / 10) * real_of_int t" using r by simp
    then show ?thesis
      unfolding x f_def using logistic_range [of "0.07 * (p / 10) * real_of_int t"] by simp
  qed
  show ?thesis using s z mono rng by blast
qed

subsection \<open>Scenario simulator in double precision\<close>

text \<open>Rounding to the nearest integer, ties to even.\<close>

lemma round_half_even_of_int: "round_half_even (of_int k) = k"
  by (simp add: round_half_even_def)

lemma round_half_even_cases:
  "(round_half_even z = \<lfloor>z\<rfloor> \<and> z - of_int \<lfloor>z\<rfloor> \<le> 1 / 2)
   \<or> (round_half_even z = \<lfloor>z\<rfloor> + 1 \<and> 1 / 2 \<le> z - of_int \<lfloor>z\<rfloor>)"
  unfolding round_half_even_def by (simp only: split: if_splits) linarith

lemma round_half_even_bounds:
  "of_int (round_half_even z) \<le> z + 1 / 2 \<and> z - 1 / 2 \<le> of_int (round_half_even z)"
proof -
  have f: "of_int \<lfloor>z\<rfloor> \<le> z" "z < of_int \<lfloor>z\<rfloor> + 1" by linarith+
  from round_half_even_cases [of z] show ?thesis
  proof
    assume "round_half_even z = \<lfloor>z\<rfloor> \<and> z - of_int \<lfloor>z\<rfloor> \<le> 1 / 2"
    then show ?thesis using f by linarith
  next
    assume a: "round_half_even z = \<lfloor>z\<rfloor> + 1 \<and> 1 / 2 \<le> z - of_int \<lfloor>z\<rfloor>"
    then have "real_of_int (round_half_even z) = of_int \<lfloor>z\<rfloor> + 1" by simp
    then show ?thesis using f a by linarith
  qed
qed

lemma round_half_even_near:
  assumes "\<bar>z - of_int m\<bar> < 1 / 2"
  shows "round_half_even z = m"
proof -
  have "of_int (round_half_even z) \<le> z + 1 / 2" "z - 1 / 2 \<le> of_int (round_half_even z)"
    using round_half_even_bounds [of z] by simp_all
  then have "\<bar>real_of_int (round_half_even z) - of_int m\<bar> < 1" using assms by linarith
  then have "\<bar>real_of_int (round_half_even z - m)\<bar> < 1" by simp
  then have "\<bar>round_half_even z - m\<bar> < 1" by linarith
  then show ?thesis by simp
qed

lemma round_half_even_mono:
  assumes "z \<le> w"
  shows "round_half_even z \<le> round_half_even w"
proof (cases "\<lfloor>z\<rfloor> = \<lfloor>w\<rfloor>")
  case True
  have "z - of_int \<lfloor>z\<rfloor> \<le> w - of_int \<lfloor>w\<rfloor>" using assms True by simp
  then show ?thesis
    unfolding round_half_even_def True by (simp only: split: if_splits) linarith
next
  case False
  then have "\<lfloor>z\<rfloor> < \<lfloor>w\<rfloor>" using floor_mono [OF assms] by linarith
  moreover have "round_half_even z \<le> \<lfloor>z\<rfloor> + 1"
    using round_half_even_cases [of z] by linarith
  moreover have "\<lfloor>w\<rfloor> \<le> round_half_even w"
    using round_half_even_cases [of w] by linarith
  ultimately show ?thesis by linarith
qed


text \<open>The binade of a positive number and the rounding within it.\<close>

lemma ulp_alt: "ulp x = 2 powr (of_int \<lfloor>log 2 x\<rfloor>) / 2 ^ 52"
  by (simp add: ulp_def powr_diff)

lemma ulp_pos: "0 < ulp x"
  by (simp add: ulp_def)

lemma binade_bounds:
  assumes "0 < x"
  shows "2 powr (of_int \<lfloor>log 2 x\<rfloor>) \<le> x" "x < 2 powr (of_int \<lfloor>log 2 x\<rfloor> + 1)"
  using floor_log_eq_powr_iff [of x 2 "\<lfloor>log 2 x\<rfloor>"] assms by simp_all

lemma binade_eq:
  assumes "2 powr (of_int k) \<le> x" "x < 2 powr (of_int k + 1)"
  shows "\<lfloor>log 2 x\<rfloor> = k"
proof -
  have "0 < x" using assms(1) powr_gt_zero [of 2 "of_int k"] by linarith
  then show ?thesis using floor_log_eq_powr_iff [of x 2 k] assms by simp
qed

lemma scaled_bounds:
  assumes "0 < x"
  shows "2 ^ 52 \<le> x / ulp x" "x / ulp x < 2 ^ 53"
proof -
  define pe :: real where "pe = 2 powr (of_int \<lfloor>log 2 x\<rfloor>)"
  have pe: "0 < pe" by (simp add: pe_def)
  have b: "pe \<le> x" "x < 2 * pe"
    using binade_bounds [OF assms] by (simp_all add: pe_def powr_add)
  have u: "ulp x = pe / 2 ^ 52" by (simp add: ulp_alt pe_def)
  have "x / ulp x = x * 2 ^ 52 / pe" by (simp add: u)
  moreover have "2 ^ 52 \<le> x * 2 ^ 52 / pe" using b pe by (simp add: field_simps)
  moreover have "x * 2 ^ 52 / pe < 2 ^ 53" using b pe by (simp add: field_simps)
  ultimately show "2 ^ 52 \<le> x / ulp x" "x / ulp x < 2 ^ 53" by simp_all
qed

lemma round_magnitude_binade:
  assumes "0 < x"
  shows "2 powr (of_int \<lfloor>log 2 x\<rfloor>) \<le> round_magnitude x"
    and "round_magnitude x \<le> 2 powr (of_int \<lfloor>log 2 x\<rfloor> + 1)"
proof -
  define n where "n = round_half_even (x / ulp x)"
  have "round_half_even (of_int (2 ^ 52)) \<le> n"
    unfolding n_def using scaled_bounds(1) [OF assms] by (intro round_half_even_mono) simp
  then have lo: "2 ^ 52 \<le> n" by (simp only: round_half_even_of_int)
  have "n \<le> round_half_even (of_int (2 ^ 53))"
    unfolding n_def using scaled_bounds(2) [OF assms] by (intro round_half_even_mono) simp
  then have hi: "n \<le> 2 ^ 53" by (simp only: round_half_even_of_int)
  define pe :: real where "pe = 2 powr (of_int \<lfloor>log 2 x\<rfloor>)"
  have pe: "0 < pe" by (simp add: pe_def)
  have r: "round_magnitude x = of_int n * (pe / 2 ^ 52)"
    by (simp add: round_magnitude_def n_def ulp_alt pe_def)
  have "(2 ^ 52 :: real) \<le> of_int n" using lo by (metis of_int_le_iff of_int_numeral of_int_power)
  then have "pe \<le> of_int n * (pe / 2 ^ 52)" using pe by (simp add: field_simps)
  then show "2 powr (of_int \<lfloor>log 2 x\<rfloor>) \<le> round_magnitude x" by (simp add: r pe_def)
  have "real_of_int n \<le> 2 ^ 53" using hi by (metis of_int_le_iff of_int_numeral of_int_power)
  then have "of_int n * (pe / 2 ^ 52) \<le> 2 * pe" using pe by (simp add: field_simps)
  then show "round_magnitude x \<le> 2 powr (of_int \<lfloor>log 2 x\<rfloor> + 1)"
    by (simp add: r pe_def powr_add)
qed

lemma round_magnitude_mono:
  assumes "0 < x" "x \<le> y"
  shows "round_magnitude x \<le> round_magnitude y"
proof -
  have y: "0 < y" using assms by linarith
  have e: "\<lfloor>log 2 x\<rfloor> \<le> \<lfloor>log 2 y\<rfloor>"
    using assms by (intro floor_mono) simp
  show ?thesis
  proof (cases "\<lfloor>log 2 x\<rfloor> = \<lfloor>log 2 y\<rfloor>")
    case True
    then have u: "ulp x = ulp y" by (simp add: ulp_def)
    have "x / ulp y \<le> y / ulp y" using assms(2) ulp_pos [of y] by (simp add: divide_right_mono)
    then have "round_half_even (x / ulp y) \<le> round_half_even (y / ulp y)"
      by (rule round_half_even_mono)
    then have "real_of_int (round_half_even (x / ulp y)) \<le> real_of_int (round_half_even (y / ulp y))"
      by simp
    then show ?thesis
      unfolding round_magnitude_def u using ulp_pos [of y] by (simp add: mult_right_mono)
  next
    case False
    then have "\<lfloor>log 2 x\<rfloor> + 1 \<le> \<lfloor>log 2 y\<rfloor>" using e by linarith
    then have "real_of_int \<lfloor>log 2 x\<rfloor> + 1 \<le> real_of_int \<lfloor>log 2 y\<rfloor>" by linarith
    then have "2 powr (real_of_int \<lfloor>log 2 x\<rfloor> + 1) \<le> 2 powr (real_of_int \<lfloor>log 2 y\<rfloor>)"
      by simp
    then show ?thesis
      using round_magnitude_binade(2) [OF assms(1)] round_magnitude_binade(1) [OF y]
      by linarith
  qed
qed


text \<open>\<open>float64\<close> is odd, monotone and keeps the sign.\<close>

lemma round_magnitude_pos: "0 < x \<Longrightarrow> 0 < round_magnitude x"
  using round_magnitude_binade(1) [of x] powr_gt_zero [of 2 "of_int \<lfloor>log 2 x\<rfloor>"]
  by linarith

lemma float64_minus: "float64 (- x) = - float64 x"
  by (simp add: float64_def)

lemma float64_pos: "0 < x \<Longrightarrow> 0 < float64 x"
  by (simp add: float64_def round_magnitude_pos)

lemma float64_nonneg: "0 \<le> x \<Longrightarrow> 0 \<le> float64 x"
  using float64_pos [of x] by (cases "x = 0") (simp_all add: float64_def less_imp_le)

lemma float64_mono:
  assumes "x \<le> y"
  shows "float64 x \<le> float64 y"
proof -
  consider "0 < x" | "x \<le> 0" "0 \<le> y" | "y < 0" using assms by linarith
  then show ?thesis
  proof cases
    case 1
    then have "0 < y" using assms by linarith
    then show ?thesis using 1 assms by (simp add: float64_def round_magnitude_mono)
  next
    case 2
    have "float64 x \<le> 0" using float64_nonneg [of "- x"] 2(1) by (simp add: float64_minus)
    moreover have "0 \<le> float64 y" using 2(2) by (rule float64_nonneg)
    ultimately show ?thesis by linarith
  next
    case 3
    then have "0 < - y" "- y \<le> - x" using assms by simp_all
    then have "round_magnitude (- y) \<le> round_magnitude (- x)" by (rule round_magnitude_mono)
    then show ?thesis using 3 assms by (simp add: float64_def)
  qed
qed

text \<open>The relative error of rounding is at most \<open>2\<^sup>-\<^sup>5\<^sup>3\<close>.\<close>

lemma float64_lower:
  assumes "0 \<le> x"
  shows "x * (1 - 1 / 2 ^ 53) \<le> float64 x"
proof (cases "x = 0")
  case True
  then show ?thesis by (simp add: float64_def)
next
  case False
  then have x: "0 < x" using assms by simp
  define pe :: real where "pe = 2 powr (of_int \<lfloor>log 2 x\<rfloor>)"
  define n where "n = real_of_int (round_half_even (x / ulp x))"
  have pe: "0 < pe" "pe \<le> x" using binade_bounds(1) [OF x] by (simp_all add: pe_def)
  have u: "ulp x = pe / 2 ^ 52" by (simp add: ulp_alt pe_def)
  have "x / ulp x - 1 / 2 \<le> n" unfolding n_def using round_half_even_bounds by blast
  then have "x * 2 ^ 52 / pe - 1 / 2 \<le> n" by (simp add: u)
  then have "x - pe / 2 ^ 53 \<le> n * (pe / 2 ^ 52)" using pe(1) by (simp add: field_simps)
  moreover have "float64 x = n * (pe / 2 ^ 52)"
    using x by (simp add: float64_def round_magnitude_def n_def u)
  moreover have "pe / 2 ^ 53 \<le> x / 2 ^ 53" using pe(2) by (simp add: divide_right_mono)
  ultimately show ?thesis by (simp add: algebra_simps)
qed

text \<open>
  Evaluation: a positive number \<open>(m + d) / 2\<^sup>n\<close> with an integer \<open>m\<close> of 53 bits
  and \<open>\<bar>d\<bar> < 1/2\<close> rounds to \<open>m / 2\<^sup>n\<close>.
\<close>

lemma float64_eval:
  fixes m :: int and d :: real and n :: nat
  assumes "2 ^ 52 \<le> of_int m + d" "of_int m + d < 2 ^ 53" "\<bar>d\<bar> < 1 / 2"
  shows "float64 ((of_int m + d) / 2 ^ n) = of_int m / 2 ^ n"
proof -
  define x where "x = (of_int m + d) / 2 ^ n"
  have x: "0 < x" using assms(1) by (simp add: x_def field_simps) 
  have p: "(2::real) powr (of_int (52 - int n)) = 2 ^ 52 / 2 ^ n"
    by (simp add: powr_diff powr_realpow)
  have "2 powr (of_int (52 - int n)) \<le> x"
    unfolding p x_def using assms(1) by (simp add: divide_right_mono)
  moreover have "x < 2 powr (of_int (52 - int n) + 1)"
  proof -
    have "(of_int m + d) / 2 ^ n < 2 ^ 53 / 2 ^ n"
      using assms(2) by (intro divide_strict_right_mono) simp_all
    moreover have "(2::real) powr (of_int (52 - int n) + 1) = 2 ^ 53 / 2 ^ n"
      unfolding powr_add p by simp
    ultimately show ?thesis by (simp only: x_def)
  qed
  ultimately have e: "\<lfloor>log 2 x\<rfloor> = 52 - int n" by (rule binade_eq)
  have u: "ulp x = 1 / 2 ^ n" unfolding ulp_alt e p by simp
  have xu: "x / ulp x = of_int m + d" unfolding u by (simp add: x_def)
  have r: "round_half_even (x / ulp x) = m"
    unfolding xu using assms(3) by (intro round_half_even_near) simp
  have "round_magnitude x = of_int (round_half_even (x / ulp x)) * ulp x"
    by (simp only: round_magnitude_def)
  also have "\<dots> = of_int m * ulp x" by (simp only: r)
  also have "\<dots> = of_int m / 2 ^ n" by (simp add: u)
  finally have "float64 x = of_int m / 2 ^ n" using x by (simp add: float64_def)
  then show ?thesis by (simp only: x_def)
qed


text \<open>The doubles that the simulator's constants denote.\<close>

lemma float64_1 [simp]: "float64 1 = 1"
  using float64_eval [of "2 ^ 52" 0 52] by simp

lemma float64_3_2 [simp]: "float64 (3 / 2) = 3 / 2"
  using float64_eval [of 6755399441055744 0 52] by simp

lemma float64_5_2 [simp]: "float64 (5 / 2) = 5 / 2"
  using float64_eval [of 5629499534213120 0 51] by simp

lemma float64_5 [simp]: "float64 5 = 5"
  using float64_eval [of 5629499534213120 0 50] by simp

lemma float64_200 [simp]: "float64 200 = 200"
  using float64_eval [of 7036874417766400 0 45] by simp

lemma float64_3_5: "float64 (3 / 5) = 5404319552844595 / 2 ^ 53"
  using float64_eval [of 5404319552844595 "1 / 5" 53] by simp

lemma float64_near_1:
  assumes "0 \<le> d" "d < 1 / 2 ^ 53"
  shows "float64 (1 + d) = 1"
proof -
  have "\<bar>d * 2 ^ 52\<bar> < 1 / 2" using assms by simp
  moreover have "2 ^ 52 \<le> real_of_int (2 ^ 52) + d * 2 ^ 52" using assms by simp
  moreover have "real_of_int (2 ^ 52) + d * 2 ^ 52 < 2 ^ 53" using assms by simp
  ultimately have "float64 ((of_int (2 ^ 52) + d * 2 ^ 52) / 2 ^ 52) = of_int (2 ^ 52) / 2 ^ 52"
    by (intro float64_eval)
  moreover have "(of_int (2 ^ 52) + d * 2 ^ 52) / 2 ^ 52 = 1 + d" by (simp add: field_simps)
  moreover have "real_of_int (2 ^ 52) / 2 ^ 52 = 1" by simp
  ultimately show ?thesis by (simp only:)
qed

text \<open>The properties of \<open>np.exp\<close> that the invariant rests on.\<close>

lemma np_exp_zero: "np_exp 0 = 1"
  by (simp add: np_exp_def)

lemma np_exp_mono: "x \<le> y \<Longrightarrow> np_exp x \<le> np_exp y"
  by (simp add: np_exp_def float64_mono)

lemma np_exp_nonneg: "0 \<le> np_exp x"
  by (simp add: np_exp_def float64_nonneg)

lemma np_exp_le_1: "x \<le> 0 \<Longrightarrow> np_exp x \<le> 1"
  using np_exp_mono [of x 0] by (simp add: np_exp_zero)

text \<open>
  The constants of the logistic curve in doubles: \<open>K - initial_stock\<close> is exact, and
  the quotient \<open>(K - initial_stock) / initial_stock\<close> rounds to 1.5.
\<close>

lemma capacity_gap: "fsub (float64 1.5) (float64 0.6) = 8106479329266893 / 2 ^ 53"
proof -
  have "fsub (float64 1.5) (float64 0.6) = float64 (3 / 2 - 5404319552844595 / 2 ^ 53)"
    by (simp add: fsub_def float64_3_5)
  also have "3 / 2 - 5404319552844595 / 2 ^ 53 = (of_int 8106479329266893 + 0) / (2::real) ^ 53"
    by simp
  also have "float64 \<dots> = of_int 8106479329266893 / 2 ^ 53"
    by (rule float64_eval) simp_all
  finally show ?thesis by simp
qed

lemma growth_factor: "fdiv (fsub (float64 1.5) (float64 0.6)) (float64 0.6) = 1.5"
proof -
  define d :: real where "d = 4503599627370496 / 10808639105689190"
  have "fdiv (fsub (float64 1.5) (float64 0.6)) (float64 0.6)
        = float64 ((8106479329266893 / 2 ^ 53) / (5404319552844595 / 2 ^ 53))"
    by (simp only: fdiv_def capacity_gap) (simp add: float64_3_5)
  also have "(8106479329266893 / 2 ^ 53) / (5404319552844595 / 2 ^ 53)
             = (of_int 6755399441055744 + d) / (2::real) ^ 52"
    by (simp add: d_def)
  also have "float64 \<dots> = of_int 6755399441055744 / 2 ^ 52"
    by (rule float64_eval) (simp_all add: d_def)
  finally show ?thesis by simp
qed


lemma float64_nonpos: "x \<le> 0 \<Longrightarrow> float64 x \<le> 0"
  using float64_nonneg [of "- x"] by (simp add: float64_minus)

lemma float64_inverse_power: "float64 (1 / 2 ^ n) = 1 / 2 ^ n"
proof -
  have "float64 ((of_int (2 ^ 52) + 0) / 2 ^ (52 + n)) = of_int (2 ^ 52) / 2 ^ (52 + n)"
    by (rule float64_eval) simp_all
  moreover have "(of_int (2 ^ 52) + 0) / 2 ^ (52 + n) = (1::real) / 2 ^ n"
    by (simp add: power_add)
  moreover have "of_int (2 ^ 52) / 2 ^ (52 + n) = (1::real) / 2 ^ n"
    by (simp add: power_add)
  ultimately show ?thesis by (simp only:)
qed

text \<open>
  With a loaded baseline and a non-negative number of years the simulation in doubles
  returns a scenario; its stock array is the rounded logistic curve, with the growth
  factor \<open>(K - initial_stock) / initial_stock\<close> evaluated to 1.5.
\<close>

lemma simulate_expansion_double_ok:
  assumes "baseline_coverage sim = Some b" "0 \<le> yrs"
  shows "\<exists>sc sim'. simulate_expansion_double sim p yrs = Inr (sc, sim')
           \<and> stock_recovery sc
               = map (\<lambda>t. fdiv 1.5 (fadd 1 (fmul 1.5
                        (np_exp (fmul (- fmul (float64 0.07) (fdiv p 10)) (float64 (of_int t)))))))
                   [0..yrs]
           \<and> final_stock_level sc = last (stock_recovery sc)"
proof -
  have ne: "[0..yrs] \<noteq> []" using assms(2) by (simp add: upto_rec1)
  show ?thesis
    unfolding simulate_expansion_double_def Let_def growth_factor
    using assms(1) ne by simp
qed

text \<open>The rounded logistic curve at a recovery rate \<open>r \<ge> 0\<close>.\<close>

lemma logistic_double_start:
  "fdiv 1.5 (fadd 1 (fmul 1.5 (np_exp (fmul (- r) (float64 (of_int 0)))))) = float64 0.6"
proof -
  have "float64 0 = 0" by (simp add: float64_def)
  then show ?thesis by (simp add: fdiv_def fadd_def fmul_def np_exp_def)
qed

lemma logistic_double_denominator:
  assumes "0 \<le> r" "0 \<le> t"
  shows "1 \<le> fadd 1 (fmul 1.5 (np_exp (fmul (- r) (float64 (of_int t)))))"
    and "fadd 1 (fmul 1.5 (np_exp (fmul (- r) (float64 (of_int t))))) \<le> 2.5"
proof -
  define y where "y = fmul (- r) (float64 (of_int t))"
  define e where "e = np_exp y"
  define a where "a = fmul 1.5 e"
  have "0 \<le> float64 (of_int t)" using assms(2) by (intro float64_nonneg) simp
  then have "- r * float64 (of_int t) \<le> 0" using assms(1) by (simp add: mult_nonneg_nonneg)
  then have y: "y \<le> 0" unfolding y_def fmul_def by (rule float64_nonpos)
  have e: "0 \<le> e" "e \<le> 1" using np_exp_nonneg [of y] np_exp_le_1 [OF y] by (simp_all add: e_def)
  have "0 \<le> 1.5 * e" "1.5 * e \<le> 3 / 2" using e by simp_all
  then have "0 \<le> float64 (1.5 * e)" "float64 (1.5 * e) \<le> float64 (3 / 2)"
    by (simp_all only: float64_nonneg float64_mono)
  then have a: "0 \<le> a" "a \<le> 3 / 2" by (simp_all add: a_def fmul_def)
  have "float64 1 \<le> float64 (1 + a)" using a(1) by (intro float64_mono) simp
  moreover have "float64 (1 + a) \<le> float64 (5 / 2)" using a(2) by (intro float64_mono) simp
  ultimately have "1 \<le> fadd 1 a" "fadd 1 a \<le> 2.5" by (simp_all add: fadd_def)
  then show "1 \<le> fadd 1 (fmul 1.5 (np_exp (fmul (- r) (float64 (of_int t)))))"
    and "fadd 1 (fmul 1.5 (np_exp (fmul (- r) (float64 (of_int t))))) \<le> 2.5"
    by (simp_all only: a_def e_def y_def)
qed

lemma logistic_double_range:
  assumes "0 \<le> r" "0 \<le> t"
  shows "float64 0.6 \<le> fdiv 1.5 (fadd 1 (fmul 1.5 (np_exp (fmul (- r) (float64 (of_int t))))))"
    and "fdiv 1.5 (fadd 1 (fmul 1.5 (np_exp (fmul (- r) (float64 (of_int t)))))) \<le> 1.5"
proof -
  define q where "q = fadd 1 (fmul 1.5 (np_exp (fmul (- r) (float64 (of_int t)))))"
  have q: "1 \<le> q" "q \<le> 2.5"
    using logistic_double_denominator [OF assms] by (simp_all only: q_def)
  have "3 / 5 \<le> 1.5 / q" using q by (simp add: field_simps)
  then have "float64 (3 / 5) \<le> float64 (1.5 / q)" by (rule float64_mono)
  moreover have "1.5 / q \<le> 3 / 2" using q by (simp add: field_simps)
  then have "float64 (1.5 / q) \<le> float64 (3 / 2)" by (rule float64_mono)
  ultimately have "float64 0.6 \<le> fdiv 1.5 q" "fdiv 1.5 q \<le> 1.5" by (simp_all add: fdiv_def)
  then show "float64 0.6 \<le> fdiv 1.5 (fadd 1 (fmul 1.5 (np_exp (fmul (- r) (float64 (of_int t))))))"
    and "fdiv 1.5 (fadd 1 (fmul 1.5 (np_exp (fmul (- r) (float64 (of_int t)))))) \<le> 1.5"
    by (simp_all only: q_def)
qed

lemma logistic_double_mono:
  assumes "0 \<le> r" "0 \<le> s" "s \<le> t"
  shows "fdiv 1.5 (fadd 1 (fmul 1.5 (np_exp (fmul (- r) (float64 (of_int s))))))
       \<le> fdiv 1.5 (fadd 1 (fmul 1.5 (np_exp (fmul (- r) (float64 (of_int t))))))"
proof -
  define q where "q = (\<lambda>t. fadd 1 (fmul 1.5 (np_exp (fmul (- r) (float64 (of_int t))))))"
  have t: "0 \<le> t" using assms(2,3) by simp
  have "float64 (of_int s) \<le> float64 (of_int t)" using assms(3) by (intro float64_mono) simp
  then have "- r * float64 (of_int t) \<le> - r * float64 (of_int s)"
    using assms(1) by (simp add: mult_left_mono)
  then have "fmul (- r) (float64 (of_int t)) \<le> fmul (- r) (float64 (of_int s))"
    unfolding fmul_def by (rule float64_mono)
  then have "np_exp (fmul (- r) (float64 (of_int t))) \<le> np_exp (fmul (- r) (float64 (of_int s)))"
    by (rule np_exp_mono)
  then have "1.5 * np_exp (fmul (- r) (float64 (of_int t)))
           \<le> 1.5 * np_exp (fmul (- r) (float64 (of_int s)))" by simp
  then have "fmul 1.5 (np_exp (fmul (- r) (float64 (of_int t))))
           \<le> fmul 1.5 (np_exp (fmul (- r) (float64 (of_int s))))"
    unfolding fmul_def by (rule float64_mono)
  then have "1 + fmul 1.5 (np_exp (fmul (- r) (float64 (of_int t))))
           \<le> 1 + fmul 1.5 (np_exp (fmul (- r) (float64 (of_int s))))" by simp
  then have le: "q t \<le> q s" unfolding q_def fadd_def by (rule float64_mono)
  have pos: "1 \<le> q t" "1 \<le> q s"
    using logistic_double_denominator(1) [OF assms(1) t]
          logistic_double_denominator(1) [OF assms(1,2)] by (simp_all only: q_def)
  have "1.5 / q s \<le> 1.5 / q t" using le pos by (intro divide_left_mono) simp_all
  then have "fdiv 1.5 (q s) \<le> fdiv 1.5 (q t)" unfolding fdiv_def by (rule float64_mono)
  then show ?thesis by (simp only: q_def)
qed

lemma recovery_rate_nonneg: "0 \<le> p \<Longrightarrow> 0 \<le> fmul (float64 0.07) (fdiv p 10)"
  unfolding fmul_def fdiv_def
  by (intro float64_nonneg mult_nonneg_nonneg) simp_all


text \<open>
  The double \<open>0.6\<close>, the value that the literal \<open>initial_stock = 0.6\<close> denotes, lies
  within \<open>2\<^sup>-\<^sup>5\<^sup>4\<close> below the real number 0.6.
\<close>

lemma initial_stock_double:
  "float64 0.6 = 5404319552844595 / 2 ^ 53" "float64 0.6 \<le> 0.6" "0.6 - 1 / 2 ^ 54 \<le> float64 0.6"
  using float64_3_5 by simp_all

text \<open>
  Claim C9, as amended. In double arithmetic, for every expansion percentage
  \<open>p \<ge> 0\<close> and \<open>yrs \<ge> 1\<close> the simulation returns a stock array over the years
  \<open>0, \<dots>, yrs\<close> that starts at the initial stock (the double 0.6), is nondecreasing
  from each year to the next, and has every entry in the closed interval from the
  initial stock to the carrying capacity 1.5.
\<close>

theorem stock_recovery_invariant_double:
  "baseline_coverage sim = Some b \<Longrightarrow> 0 \<le> p \<Longrightarrow> 1 \<le> yrs \<Longrightarrow>
   \<exists>sc sim'. simulate_expansion_double sim p yrs = Inr (sc, sim')
     \<and> length (stock_recovery sc) = nat (yrs + 1)
     \<and> stock_recovery sc ! 0 = float64 0.6
     \<and> (\<forall>i. Suc i < length (stock_recovery sc) \<longrightarrow>
            stock_recovery sc ! i \<le> stock_recovery sc ! Suc i)
     \<and> (\<forall>x \<in> set (stock_recovery sc). float64 0.6 \<le> x \<and> x \<le> 1.5)"
proof -
  assume a: "baseline_coverage sim = Some b" "0 \<le> p" "1 \<le> yrs"
  define r where "r = fmul (float64 0.07) (fdiv p 10)"
  define f where
    "f = (\<lambda>t. fdiv 1.5 (fadd 1 (fmul 1.5 (np_exp (fmul (- r) (float64 (of_int t)))))))"
  have y: "0 \<le> yrs" using a(3) by simp
  have r: "0 \<le> r" unfolding r_def using a(2) by (rule recovery_rate_nonneg)
  obtain sc sim' where s: "simulate_expansion_double sim p yrs = Inr (sc, sim')"
    and st: "stock_recovery sc = map f [0..yrs]"
    unfolding f_def r_def using simulate_expansion_double_ok [OF a(1) y, of p] by blast
  have len: "length (stock_recovery sc) = nat (yrs + 1)" by (simp add: st)
  have nth: "stock_recovery sc ! i = f (int i)" if "i < length (stock_recovery sc)" for i
  proof -
    have "i < length [0..yrs]" using that by (simp add: st)
    moreover from this have "[0..yrs] ! i = int i" by (simp add: nth_upto)
    ultimately show ?thesis unfolding st by (simp only: nth_map)
  qed
  have pos: "0 < length (stock_recovery sc)" using y by (simp add: st)
  have "f (int 0) = float64 0.6" unfolding f_def int_ops(1) by (rule logistic_double_start)
  then have z: "stock_recovery sc ! 0 = float64 0.6" using nth [OF pos] by (simp only:)
  have mono: "stock_recovery sc ! i \<le> stock_recovery sc ! Suc i"
    if "Suc i < length (stock_recovery sc)" for i
  proof -
    have i: "i < length (stock_recovery sc)" using that by simp
    have "f (int i) \<le> f (int (Suc i))"
      unfolding f_def by (rule logistic_double_mono [OF r]) simp_all
    then show ?thesis using nth [OF i] nth [OF that] by (simp only:)
  qed
  have rng: "float64 0.6 \<le> x \<and> x \<le> 1.5" if "x \<in> set (stock_recovery sc)" for x
  proof -
    have "x \<in> f ` {0..yrs}" using that by (simp add: st)
    then obtain t where t: "0 \<le> t" and x: "x = f t" by auto
    show ?thesis
      unfolding x f_def using logistic_double_range [OF r t] by (rule conjI)
  qed
  show ?thesis using s len z mono rng by blast
qed

theorem stock_recovery_invariant_double_witness:
  "\<exists>sc sim'. simulate_expansion_double (load_baseline MPASimulator_init None) 20 10 = Inr (sc, sim')
     \<and> length (stock_recovery sc) = 11
     \<and> stock_recovery sc ! 0 = float64 0.6
     \<and> stock_recovery sc ! 3 \<le> stock_recovery sc ! 4
     \<and> float64 0.6 \<le> stock_recovery sc ! 10 \<and> stock_recovery sc ! 10 \<le> 1.5"
proof -
  have b: "baseline_coverage (load_baseline MPASimulator_init None) = Some 5"
    by (simp add: load_baseline_def MPASimulator_init_def)
  obtain sc sim'
    where s: "simulate_expansion_double (load_baseline MPASimulator_init None) 20 10 = Inr (sc, sim')"
    and len: "length (stock_recovery sc) = nat (10 + 1)"
    and z: "stock_recovery sc ! 0 = float64 0.6"
    and m: "\<forall>i. Suc i < length (stock_recovery sc) \<longrightarrow>
            stock_recovery sc ! i \<le> stock_recovery sc ! Suc i"
    and r: "\<forall>x \<in> set (stock_recovery sc). float64 0.6 \<le> x \<and> x \<le> 1.5"
    using stock_recovery_invariant_double [OF b, of 20 10] by auto
  have l: "length (stock_recovery sc) = 11" using len by simp
  have "stock_recovery sc ! 3 \<le> stock_recovery sc ! 4" using m l by (simp add: numeral_eq_Suc)
  moreover have "stock_recovery sc ! 10 \<in> set (stock_recovery sc)" using l by simp
  ultimately show ?thesis using s z r l by blast
qed

text \<open>
  Claim C9 as stated fails on the code: the carrying capacity is reached. For a
  50 percent expansion over 200 years the recovery rate is about 0.35, the exponent at
  the last year is below \<open>-65\<close>, so \<open>1.5 * exp(...)\<close> is below \<open>2\<^sup>-\<^sup>6\<^sup>4\<close> and
  the denominator \<open>1 + 1.5 * exp(...)\<close> rounds to 1: the last entry is exactly 1.5.
\<close>

lemma exp_minus_65: "exp (- 65 :: real) \<le> 1 / 2 ^ 65"
proof -
  have "(2::real) \<le> exp 1" using exp_ge_add_one_self [of "1::real"] by simp
  then have "(2::real) ^ 65 \<le> exp 1 ^ 65" by (intro power_mono) simp_all
  also have "exp (1::real) ^ 65 = exp 65" using exp_of_nat_mult [of 65 "1::real"] by simp
  finally have "1 / exp (65::real) \<le> 1 / 2 ^ 65" by (intro divide_left_mono) simp_all
  then show ?thesis by (simp add: exp_minus field_simps)
qed

lemma logistic_double_saturated:
  "fdiv 1.5 (fadd 1 (fmul 1.5
     (np_exp (fmul (- fmul (float64 0.07) (fdiv 50 10)) (float64 (of_int 200)))))) = 1.5"
proof -
  define r where "r = fmul (float64 0.07) (fdiv 50 10)"
  define y where "y = fmul (- r) (float64 (of_int 200))"
  define a where "a = fmul 1.5 (np_exp y)"
  have "0.07 * (1 - 1 / 2 ^ 53) \<le> float64 0.07" by (rule float64_lower) simp
  then have f: "0.069 \<le> float64 0.07" by simp
  have "(float64 0.07 * 5) * (1 - 1 / 2 ^ 53) \<le> float64 (float64 0.07 * 5)"
    using f by (intro float64_lower) simp
  moreover have "0.34 \<le> (float64 0.07 * 5) * (1 - 1 / 2 ^ 53)" using f by simp
  ultimately have r: "0.34 \<le> r" by (simp add: r_def fmul_def fdiv_def)
  have "(r * 200) * (1 - 1 / 2 ^ 53) \<le> float64 (r * 200)" using r by (intro float64_lower) simp
  moreover have "65 \<le> (r * 200) * (1 - 1 / 2 ^ 53)" using r by simp
  ultimately have "65 \<le> float64 (r * 200)" by linarith
  moreover have "y = - float64 (r * 200)"
    using float64_minus [of "r * 200"] by (simp add: y_def fmul_def)
  ultimately have y: "y \<le> - 65" by simp
  have "exp y \<le> exp (- 65)" using y by simp
  then have "exp y \<le> 1 / 2 ^ 65" using exp_minus_65 by linarith
  then have "float64 (exp y) \<le> float64 (1 / 2 ^ 65)" by (rule float64_mono)
  then have e: "np_exp y \<le> 1 / 2 ^ 65" by (simp only: np_exp_def float64_inverse_power)
  have "1.5 * np_exp y \<le> 1 / 2 ^ 64" using e by simp
  then have "float64 (1.5 * np_exp y) \<le> float64 (1 / 2 ^ 64)" by (rule float64_mono)
  then have "a \<le> 1 / 2 ^ 64" by (simp only: a_def fmul_def float64_inverse_power)
  then have a: "a < 1 / 2 ^ 53" by simp
  have "0 \<le> 1.5 * np_exp y" using np_exp_nonneg [of y] by simp
  then have a0: "0 \<le> a" unfolding a_def fmul_def by (rule float64_nonneg)
  have "fadd 1 a = 1" unfolding fadd_def using a0 a by (rule float64_near_1)
  then have "fdiv 1.5 (fadd 1 a) = 1.5" by (simp add: fdiv_def)
  then show ?thesis by (simp only: a_def y_def r_def)
qed

theorem stock_recovery_reaches_capacity:
  "\<exists>sc sim'. simulate_expansion_double (load_baseline MPASimulator_init None) 50 200 = Inr (sc, sim')
     \<and> stock_recovery sc ! 200 = 1.5
     \<and> final_stock_level sc = 1.5
     \<and> \<not> stock_recovery sc ! 200 < 1.5"
proof -
  have b: "baseline_coverage (load_baseline MPASimulator_init None) = Some 5"
    by (simp add: load_baseline_def MPASimulator_init_def)
  define f where
    "f = (\<lambda>t. fdiv 1.5 (fadd 1 (fmul 1.5
            (np_exp (fmul (- fmul (float64 0.07) (fdiv 50 10)) (float64 (of_int t)))))))"
  obtain sc sim'
    where s: "simulate_expansion_double (load_baseline MPASimulator_init None) 50 200 = Inr (sc, sim')"
    and st: "stock_recovery sc = map f [0..200]"
    and fin: "final_stock_level sc = last (stock_recovery sc)"
    unfolding f_def using simulate_expansion_double_ok [OF b, of 200 50] by auto
  have len: "length (stock_recovery sc) = 201" by (simp add: st)
  have "[0..200] ! 200 = (200::int)" using nth_upto [of 0 200 200] by simp
  then have "stock_recovery sc ! 200 = f 200" unfolding st by simp
  moreover have "f 200 = 1.5" unfolding f_def using logistic_double_saturated by simp
  ultimately have n: "stock_recovery sc ! 200 = 1.5" by simp
  have "stock_recovery sc \<noteq> []" using len by auto
  then have "last (stock_recovery sc) = stock_recovery sc ! (length (stock_recovery sc) - 1)"
    by (rule last_conv_nth)
  then have "final_stock_level sc = 1.5" using fin n len by simp
  then show ?thesis using s n by auto
qed

subsection \<open>Statistical models\<close>

lemma trained_call [simp]: "trained (snd (call r s)) = trained s"
  by (simp add: call_def split: sum.splits)

lemma risk_train_flag:
  "trained (snd (OverfishingRiskModel_train lib X y s)) = (trained s \<or> \<not> isl (fst (OverfishingRiskModel_train lib X y s)))"
  by (auto simp add: OverfishingRiskModel_train_def then_do_def call_def scaler_fit_transform_def
       model_fit_def importance_frame_def set_trained_def return_value_def
      split: sum.splits prod.splits if_splits)


lemma juvenile_train_flag:
  "trained (snd (JuvenileCatchForecastModel_train lib X y s)) =
     (trained s \<or> \<not> isl (fst (JuvenileCatchForecastModel_train lib X y s)))"
  by (auto simp add: JuvenileCatchForecastModel_train_def then_do_def call_def
       scaler_fit_transform_def model_fit_def importance_frame_def set_trained_def
       return_value_def
      split: sum.splits prod.splits if_splits)

lemma predict_risk_state: "snd (OverfishingRiskModel_predict_risk lib X s) = s"
  by (auto simp add: OverfishingRiskModel_predict_risk_def then_do_def call_def return_value_def
      split: sum.splits prod.splits)

lemma forecast_state: "snd (JuvenileCatchForecastModel_forecast lib X days s) = s"
  by (auto simp add: JuvenileCatchForecastModel_forecast_def then_do_def call_def
       return_value_def split: sum.splits prod.splits)

lemma predict_risk_error:
  "(fst (OverfishingRiskModel_predict_risk lib X s)
      = Inl (ValueError ''Model must be trained before prediction'')) = (\<not> trained s)"
  by (auto simp add: OverfishingRiskModel_predict_risk_def then_do_def call_def return_value_def
      split: sum.splits prod.splits)

lemma forecast_error:
  "(fst (JuvenileCatchForecastModel_forecast lib X days s)
      = Inl (ValueError ''Model must be trained before forecasting'')) = (\<not> trained s)"
  by (auto simp add: JuvenileCatchForecastModel_forecast_def then_do_def call_def
       return_value_def split: sum.splits prod.splits)

lemma then_do_return:
  "snd (then_do m (\<lambda>a. return_value (g a)) s) = snd (m s)"
  "isl (fst (then_do m (\<lambda>a. return_value (g a)) s)) = isl (fst (m s))"
  by (auto simp add: then_do_def return_value_def split: sum.splits prod.splits)

lemma invoke_flag:
  "trained (snd (invoke lib c m s)) =
     (trained s \<or> (is_train m \<and> \<not> isl (fst (invoke lib c m s))))"
proof (cases m)
  case (PrepareTrainingData found)
  then show ?thesis
    by (auto simp add: then_do_return prepare_training_data_def split: option.splits)
next
  case (Train X y)
  then show ?thesis
    by (cases c) (simp_all add: then_do_return risk_train_flag juvenile_train_flag)
next
  case (Predict X days)
  then show ?thesis
    by (cases c) (simp_all add: then_do_return predict_risk_state forecast_state)
next
  case (SaveModel written)
  then show ?thesis by (simp add: then_do_return save_model_def)
qed

lemma run_flag:
  "run lib c s ms = (rs, s') \<Longrightarrow> trained s' = (trained s \<or> train_succeeded ms rs)"
proof (induction ms arbitrary: s rs)
  case Nil
  then show ?case by (simp add: train_succeeded_def)
next
  case (Cons m ms)
  obtain r s1 where i: "invoke lib c m s = (r, s1)" by (cases "invoke lib c m s")
  obtain rs1 where r: "run lib c s1 ms = (rs1, s')" and rs: "rs = r # rs1"
    using Cons.prems i by (auto split: prod.splits)
  have "trained s' = (trained s1 \<or> train_succeeded ms rs1)" using Cons.IH [OF r] .
  moreover have "trained s1 = (trained s \<or> (is_train m \<and> \<not> isl r))"
    using invoke_flag [of lib c m s] i by simp
  ultimately show ?case by (auto simp add: rs train_succeeded_def)
qed


text \<open>
  Claim C10. \<open>predict_risk\<close> and \<open>forecast\<close> raise their ValueError exactly when no
  call of \<open>train\<close> on the object has succeeded before; a successful \<open>train\<close> sets
  the flag, and the failing call leaves the object as it was.
\<close>

theorem untrained_guard:
  "(run lib OverfishingRisk (OverfishingRiskModel_init m sc) calls = (outs, s) \<longrightarrow>
      (fst (OverfishingRiskModel_predict_risk lib X s)
         = Inl (ValueError ''Model must be trained before prediction''))
        = (\<not> train_succeeded calls outs)
      \<and> (\<not> train_succeeded calls outs \<longrightarrow> snd (OverfishingRiskModel_predict_risk lib X s) = s))
   \<and> (run lib JuvenileCatch (JuvenileCatchForecastModel_init m sc) calls = (outs, s) \<longrightarrow>
      (fst (JuvenileCatchForecastModel_forecast lib X days s)
         = Inl (ValueError ''Model must be trained before forecasting''))
        = (\<not> train_succeeded calls outs)
      \<and> (\<not> train_succeeded calls outs \<longrightarrow>
           snd (JuvenileCatchForecastModel_forecast lib X days s) = s))
   \<and> (fst (OverfishingRiskModel_train lib X y s0) = Inr v \<longrightarrow>
        trained (snd (OverfishingRiskModel_train lib X y s0)))
   \<and> (fst (JuvenileCatchForecastModel_train lib X y s0) = Inr v \<longrightarrow>
        trained (snd (JuvenileCatchForecastModel_train lib X y s0)))"
proof (intro conjI impI)
  assume r: "run lib OverfishingRisk (OverfishingRiskModel_init m sc) calls = (outs, s)"
  have "trained s = train_succeeded calls outs"
    using run_flag [OF r] by (simp add: OverfishingRiskModel_init_def)
  then show "(fst (OverfishingRiskModel_predict_risk lib X s)
         = Inl (ValueError ''Model must be trained before prediction''))
        = (\<not> train_succeeded calls outs)"
    by (simp only: predict_risk_error)
next
  show "snd (OverfishingRiskModel_predict_risk lib X s) = s" by (rule predict_risk_state)
next
  assume r: "run lib JuvenileCatch (JuvenileCatchForecastModel_init m sc) calls = (outs, s)"
  have "trained s = train_succeeded calls outs"
    using run_flag [OF r] by (simp add: JuvenileCatchForecastModel_init_def)
  then show "(fst (JuvenileCatchForecastModel_forecast lib X days s)
         = Inl (ValueError ''Model must be trained before forecasting''))
        = (\<not> train_succeeded calls outs)"
    by (simp only: forecast_error)
next
  show "snd (JuvenileCatchForecastModel_forecast lib X days s) = s" by (rule forecast_state)
next
  assume "fst (OverfishingRiskModel_train lib X y s0) = Inr v"
  then show "trained (snd (OverfishingRiskModel_train lib X y s0))"
    by (simp add: risk_train_flag)
next
  assume "fst (JuvenileCatchForecastModel_train lib X y s0) = Inr v"
  then show "trained (snd (JuvenileCatchForecastModel_train lib X y s0))"
    by (simp add: juvenile_train_flag)
qed

lemma toy_run_failed_train:
  "run toy_sklearn c s [Train 0 0] = ([Inl (LibraryError ''empty'')], s)"
  by (cases c)
     (simp_all add: toy_sklearn_def then_do_def call_def OverfishingRiskModel_train_def
        JuvenileCatchForecastModel_train_def)

lemma toy_train_ok:
  "OverfishingRiskModel_train toy_sklearn 1 1 (OverfishingRiskModel_init 0 0)
     = (Inr 1, \<lparr>model = 1, scaler = 1, feature_names = [], trained = True\<rparr>)"
  "JuvenileCatchForecastModel_train toy_sklearn 1 1 (JuvenileCatchForecastModel_init 0 0)
     = (Inr 1, \<lparr>model = 1, scaler = 1, feature_names = [], trained = True\<rparr>)"
  by (simp_all add: toy_sklearn_def then_do_def call_def OverfishingRiskModel_train_def
        JuvenileCatchForecastModel_train_def OverfishingRiskModel_init_def
        JuvenileCatchForecastModel_init_def scaler_fit_transform_def model_fit_def
        importance_frame_def set_trained_def return_value_def)

theorem untrained_guard_witness:
  "run toy_sklearn OverfishingRisk (OverfishingRiskModel_init 0 0) [Train 0 0]
     = ([Inl (LibraryError ''empty'')], OverfishingRiskModel_init 0 0)
   \<and> OverfishingRiskModel_predict_risk toy_sklearn 1 (OverfishingRiskModel_init 0 0)
     = (Inl (ValueError ''Model must be trained before prediction''), OverfishingRiskModel_init 0 0)
   \<and> JuvenileCatchForecastModel_forecast toy_sklearn 1 30 (JuvenileCatchForecastModel_init 0 0)
     = (Inl (ValueError ''Model must be trained before forecasting''),
        JuvenileCatchForecastModel_init 0 0)
   \<and> trained (snd (OverfishingRiskModel_train toy_sklearn 1 1 (OverfishingRiskModel_init 0 0)))
   \<and> trained (snd (JuvenileCatchForecastModel_train toy_sklearn 1 1
                      (JuvenileCatchForecastModel_init 0 0)))"
proof -
  let ?outs = "[Inl (LibraryError ''empty'')] :: (py_error + (nat, nat, int) method_result) list"
  let ?r0 = "OverfishingRiskModel_init (0::nat) (0::nat)"
  let ?j0 = "JuvenileCatchForecastModel_init (0::nat) (0::nat)"
  have n: "\<not> train_succeeded [Train (0::nat) (0::nat)] ?outs"
    by (simp add: train_succeeded_def)
  have r: "run toy_sklearn OverfishingRisk ?r0 [Train 0 0] = (?outs, ?r0)"
    by (rule toy_run_failed_train)
  have j: "run toy_sklearn JuvenileCatch ?j0 [Train 0 0] = (?outs, ?j0)"
    by (rule toy_run_failed_train)
  have tr: "fst (OverfishingRiskModel_train toy_sklearn 1 1 ?r0) = Inr 1"
    by (simp only: toy_train_ok fst_conv)
  have tj: "fst (JuvenileCatchForecastModel_train toy_sklearn 1 1 ?j0) = Inr 1"
    by (simp only: toy_train_ok fst_conv)
  have p: "fst (OverfishingRiskModel_predict_risk toy_sklearn 1 ?r0)
             = Inl (ValueError ''Model must be trained before prediction'')
           \<and> snd (OverfishingRiskModel_predict_risk toy_sklearn 1 ?r0) = ?r0"
    using untrained_guard [of toy_sklearn 0 0 "[Train 0 0]" ?outs ?r0 1 30 1 ?r0 1] r n
    by blast
  have f: "fst (JuvenileCatchForecastModel_forecast toy_sklearn 1 30 ?j0)
             = Inl (ValueError ''Model must be trained before forecasting'')
           \<and> snd (JuvenileCatchForecastModel_forecast toy_sklearn 1 30 ?j0) = ?j0"
    using untrained_guard [of toy_sklearn 0 0 "[Train 0 0]" ?outs ?j0 1 30 1 ?j0 1] j n
    by blast
  have t1: "trained (snd (OverfishingRiskModel_train toy_sklearn 1 1 ?r0))"
    using untrained_guard [of toy_sklearn 0 0 "[Train 0 0]" ?outs ?r0 1 30 1 ?r0 1] tr
    by blast
  have t2: "trained (snd (JuvenileCatchForecastModel_train toy_sklearn 1 1 ?j0))"
    using untrained_guard [of toy_sklearn 0 0 "[Train 0 0]" ?outs ?j0 1 30 1 ?j0 1] tj
    by blast
  show ?thesis using r p f t1 t2 by (simp add: prod_eq_iff)
qed

subsection \<open>MPA proximity flagging\<close>

lemma check_none:
  "(check_mpa_proximity distance cl mpas = None)
     = (filter (\<lambda>d. d < 0.05) (boundary_distances distance (centroid cl) mpas) = [])"
  by (induction mpas) (auto simp add: boundary_distances_def split: option.splits)

lemma check_some:
  "check_mpa_proximity distance cl mpas = Some s \<Longrightarrow>
     \<exists>d. first_qualifying_distance distance (centroid cl) mpas = Some d
        \<and> d < 0.05 \<and> risk_score s = min 1 (1 - d * 20)
        \<and> cluster_id s = label cl \<and> n_vessels s = length (effort cl)
        \<and> total_effort_hours s = sum_list (effort cl)"
  by (induction mpas)
     (auto simp add: boundary_distances_def first_qualifying_distance_def
        split: option.splits if_splits)


lemma filter_head_mem:
  assumes "filter P xs = d # ds"
  shows "d \<in> set xs"
proof -
  have "d \<in> set (filter P xs)" by (simp add: assms)
  then show ?thesis by simp
qed

lemma check_label:
  "check_mpa_proximity distance cl mpas = Some s \<Longrightarrow> cluster_id s = label cl"
  using check_some by blast

lemma records_of_cluster:
  assumes "distinct (map label clusters)" "cl \<in> set clusters" "label cl \<noteq> - 1"
  shows "filter (\<lambda>s. cluster_id s = label cl)
           (List.map_filter
              (\<lambda>cl. if label cl = - 1 then None else check_mpa_proximity distance cl mpas)
              clusters)
         = (case check_mpa_proximity distance cl mpas of None \<Rightarrow> [] | Some s \<Rightarrow> [s])"
  using assms
proof (induction clusters)
  case Nil
  then show ?case by simp
next
  case (Cons c cs)
  let ?f = "\<lambda>cl. if label cl = - 1 then None else check_mpa_proximity distance cl mpas"
  have other: "filter (\<lambda>s. cluster_id s = label cl) (List.map_filter ?f xs) = []"
    if "label cl \<notin> label ` set xs" for xs
    using that
  proof (induction xs)
    case Nil
    then show ?case by simp
  next
    case (Cons x xs)
    then show ?case
      by (auto dest: check_label split: option.splits)
  qed
  show ?case
  proof (cases "c = cl")
    case True
    then have "label cl \<notin> label ` set cs" using Cons.prems(1) by auto
    then have "filter (\<lambda>s. cluster_id s = label cl) (List.map_filter ?f cs) = []"
      by (rule other)
    then show ?thesis
      using True Cons.prems(3)
      by (auto dest: check_label split: option.splits)
  next
    case False
    then have in_cs: "cl \<in> set cs" using Cons.prems(2) by simp
    then have ne: "label c \<noteq> label cl" using Cons.prems(1) by auto
    have ih: "filter (\<lambda>s. cluster_id s = label cl) (List.map_filter ?f cs)
                = (case check_mpa_proximity distance cl mpas of None \<Rightarrow> [] | Some s \<Rightarrow> [s])"
      using Cons.IH in_cs Cons.prems by simp
    show ?thesis
      using ne ih
      by (auto dest: check_label split: option.splits)
  qed
qed


text \<open>
  Claim C7, as amended. A cluster that is not noise is flagged exactly when some
  computed distance from its centroid to an MPA boundary is below 0.05; then exactly one
  record is produced for it, and its risk score is \<open>max 0 (1 - 20 * d)\<close> for the
  distance \<open>d\<close> to the first row, in the order of the MPA table, whose boundary is
  closer than 0.05. Distances are non-negative, as shapely's are.
\<close>

theorem near_mpa_flag:
  assumes "\<forall>g d. distance (centroid cl) g = Some d \<longrightarrow> 0 \<le> d"
    and "distinct (map label clusters)" and "cl \<in> set clusters" and "label cl \<noteq> - 1"
  shows "(filter (\<lambda>s. cluster_id s = label cl)
             (suspicious_clusters distance (Some mpas) clusters) \<noteq> [])
           = (\<exists>d \<in> set (boundary_distances distance (centroid cl) mpas). d < 0.05)
       \<and> ((\<exists>d \<in> set (boundary_distances distance (centroid cl) mpas). d < 0.05) \<longrightarrow>
            (\<exists>s d. filter (\<lambda>s. cluster_id s = label cl)
                      (suspicious_clusters distance (Some mpas) clusters) = [s]
                 \<and> first_qualifying_distance distance (centroid cl) mpas = Some d
                 \<and> risk_score s = max 0 (1 - 20 * d)))"
proof -
  let ?recs = "filter (\<lambda>s. cluster_id s = label cl)
                 (suspicious_clusters distance (Some mpas) clusters)"
  let ?near = "\<exists>d \<in> set (boundary_distances distance (centroid cl) mpas). d < 0.05"
  have recs: "?recs = (case check_mpa_proximity distance cl mpas of None \<Rightarrow> [] | Some s \<Rightarrow> [s])"
  proof (cases "mpas = []")
    case True
    then show ?thesis by (simp add: suspicious_clusters_def)
  next
    case False
    then have "0 < length mpas" by simp
    then show ?thesis
      using records_of_cluster [OF assms(2) assms(3) assms(4), of distance mpas]
      by (simp only: suspicious_clusters_def option.case if_True)
  qed
  have near: "?near = (check_mpa_proximity distance cl mpas \<noteq> None)"
    by (simp add: check_none filter_empty_conv)
  have iff: "(?recs \<noteq> []) = ?near"
    unfolding recs near by (simp split: option.splits)
  have one: "\<exists>s d. ?recs = [s]
                 \<and> first_qualifying_distance distance (centroid cl) mpas = Some d
                 \<and> risk_score s = max 0 (1 - 20 * d)" if ?near
  proof -
    have "check_mpa_proximity distance cl mpas \<noteq> None" using that near by blast
    then obtain s where s: "check_mpa_proximity distance cl mpas = Some s" by blast
    obtain d where d: "first_qualifying_distance distance (centroid cl) mpas = Some d"
      and lt: "d < 0.05" and r: "risk_score s = min 1 (1 - d * 20)"
      using check_some [OF s] by blast
    have "d \<in> set (boundary_distances distance (centroid cl) mpas)"
      using d
      by (auto simp add: first_qualifying_distance_def split: list.splits
               dest: filter_head_mem)
    then obtain g where "distance (centroid cl) g = Some d"
      by (auto simp add: boundary_distances_def List.map_filter_def)
    then have "0 \<le> d" using assms(1) by blast
    then have "risk_score s = max 0 (1 - 20 * d)" using r lt by simp
    then show ?thesis using s d recs by simp
  qed
  show ?thesis using iff one by blast
qed


theorem near_mpa_flag_witness:
  "\<exists>s d. filter (\<lambda>s. cluster_id s = 3)
            (suspicious_clusters (\<lambda>c g. Some \<bar>c - g\<bar>)
               (Some [\<lparr>attrs = [''NAME'' \<mapsto> ''Far''], geometry = 0.2\<rparr>,
                      \<lparr>attrs = [''name'' \<mapsto> ''Near''], geometry = 0.03\<rparr>])
               [\<lparr>label = - 1, effort = [4], centroid = 0.03\<rparr>,
                \<lparr>label = 3, effort = [1, 2], centroid = (0::real)\<rparr>]) = [s]
        \<and> first_qualifying_distance (\<lambda>c g. Some \<bar>c - g\<bar>) 0
               [\<lparr>attrs = [''NAME'' \<mapsto> ''Far''], geometry = 0.2\<rparr>,
                \<lparr>attrs = [''name'' \<mapsto> ''Near''], geometry = 0.03\<rparr>] = Some d
        \<and> risk_score s = max 0 (1 - 20 * d)"
proof -
  let ?D = "\<lambda>(c::real) (g::real). Some \<bar>c - g\<bar>"
  let ?M = "[\<lparr>attrs = [''NAME'' \<mapsto> ''Far''], geometry = 0.2\<rparr>,
             \<lparr>attrs = [''name'' \<mapsto> ''Near''], geometry = (0.03::real)\<rparr>]"
  let ?c = "\<lparr>label = 3, effort = [1, 2], centroid = (0::real)\<rparr>"
  let ?cs = "[\<lparr>label = - 1, effort = [4], centroid = 0.03\<rparr>, ?c]"
  have a: "\<forall>g d. ?D (centroid ?c) g = Some d \<longrightarrow> 0 \<le> d" by auto
  have b: "distinct (map label ?cs)" by simp
  have c: "?c \<in> set ?cs" by simp
  have d: "label ?c \<noteq> - 1" by simp
  have "boundary_distances ?D (centroid ?c) ?M = [0.2, 0.03]"
    by (simp add: boundary_distances_def)
  then have e: "\<exists>d \<in> set (boundary_distances ?D (centroid ?c) ?M). d < 0.05"
    by (intro bexI [where x = "0.03"]) simp_all
  note t = near_mpa_flag [of ?D ?c ?cs ?M, OF a b c d]
  from t e have "\<exists>s d. filter (\<lambda>s. cluster_id s = label ?c)
                      (suspicious_clusters ?D (Some ?M) ?cs) = [s]
                 \<and> first_qualifying_distance ?D (centroid ?c) ?M = Some d
                 \<and> risk_score s = max 0 (1 - 20 * d)"
    by blast
  then show ?thesis by simp
qed

text \<open>
  The claim as stated names the nearest qualifying MPA. With two MPAs whose boundaries
  are 0.04 and 0.01 away, in this order, the loop stops at the first: the record names
  it and scores 0.2, where the nearest one would give 0.8.
\<close>

theorem nearest_mpa_counterexample:
  "suspicious_clusters (\<lambda>c g. Some \<bar>c - g\<bar>)
      (Some [\<lparr>attrs = [''NAME'' \<mapsto> ''A''], geometry = 0.04\<rparr>,
             \<lparr>attrs = [''NAME'' \<mapsto> ''B''], geometry = 0.01\<rparr>])
      [\<lparr>label = 0, effort = [1, 2], centroid = (0::real)\<rparr>]
     = [\<lparr>cluster_id = 0, n_vessels = 2, total_effort_hours = 3, near_mpa = ''A'',
         risk_score = 0.2\<rparr>]
   \<and> nearest_qualifying_distance (\<lambda>c g. Some \<bar>c - g\<bar>) (0::real)
        [\<lparr>attrs = [''NAME'' \<mapsto> ''A''], geometry = 0.04\<rparr>,
         \<lparr>attrs = [''NAME'' \<mapsto> ''B''], geometry = 0.01\<rparr>] = Some 0.01
   \<and> max 0 (1 - 20 * 0.01) = (0.8::real)"
  by (simp add: suspicious_clusters_def nearest_qualifying_distance_def boundary_distances_def
        mpa_name_def)

subsection \<open>Current speed and direction\<close>

lemma arctan2_bounds: "- pi < arctan2 y x \<and> arctan2 y x \<le> pi"
proof -
  have a: "- (pi / 2) < arctan (y / x)" "arctan (y / x) < pi / 2"
    by (rule arctan_lbound, rule arctan_ubound)
  have "0 < arctan (y / x)" if "x < 0" "y < 0"
    using that by (simp add: zero_less_divide_iff)
  moreover have "arctan (y / x) \<le> 0" if "x < 0" "0 \<le> y"
    using that by (simp add: divide_le_0_iff)
  ultimately show ?thesis using a pi_gt_zero
    by (auto simp add: arctan2_def)
qed

lemma arctan2_polar:
  "x = sqrt (x\<^sup>2 + y\<^sup>2) * cos (arctan2 y x) \<and> y = sqrt (x\<^sup>2 + y\<^sup>2) * sin (arctan2 y x)"
proof (cases "x = 0")
  case True
  then show ?thesis by (auto simp add: arctan2_def)
next
  case False
  define t where "t = y / x"
  have r: "sqrt (x\<^sup>2 + y\<^sup>2) = \<bar>x\<bar> * sqrt (1 + t\<^sup>2)"
  proof -
    have "x\<^sup>2 + y\<^sup>2 = x\<^sup>2 * (1 + t\<^sup>2)"
      using False by (simp add: t_def field_simps power2_eq_square)
    then show ?thesis by (simp add: real_sqrt_mult)
  qed
  have p: "0 < sqrt (1 + t\<^sup>2)" by (simp add: add_pos_nonneg)
  have A: "sqrt (x\<^sup>2 + y\<^sup>2) * cos (arctan t) = \<bar>x\<bar>"
    using p by (simp add: r cos_arctan)
  have B: "sqrt (x\<^sup>2 + y\<^sup>2) * sin (arctan t) = \<bar>x\<bar> * t"
    using p by (simp add: r sin_arctan)
  have y: "x * t = y" using False by (simp add: t_def)
  show ?thesis
  proof (cases "0 < x")
    case True
    then have "arctan2 y x = arctan t" by (simp add: arctan2_def t_def)
    then show ?thesis using True A B y by simp
  next
    case neg: False
    then have xn: "x < 0" using False by simp
    have "arctan2 y x = arctan t + pi \<or> arctan2 y x = arctan t - pi"
      using xn by (auto simp add: arctan2_def t_def)
    then have cs: "cos (arctan2 y x) = - cos (arctan t)" "sin (arctan2 y x) = - sin (arctan t)"
      by auto
    have "sqrt (x\<^sup>2 + y\<^sup>2) * cos (arctan2 y x) = - \<bar>x\<bar>"
      unfolding cs using A by simp
    moreover have "sqrt (x\<^sup>2 + y\<^sup>2) * sin (arctan2 y x) = - (\<bar>x\<bar> * t)"
      unfolding cs using B by simp
    ultimately show ?thesis using xn y by simp
  qed
qed


lemma py_mod_range:
  assumes "0 < m"
  shows "0 \<le> py_mod x m \<and> py_mod x m < m"
proof -
  define f where "f = real_of_int \<lfloor>x / m\<rfloor>"
  have "f \<le> x / m" "x / m < f + 1" unfolding f_def by linarith+
  then have "m * f \<le> x" "x < m * f + m"
    using assms by (simp_all add: field_simps)
  then show ?thesis by (simp add: py_mod_def f_def)
qed

lemma cos_sin_turns:
  "cos (x + of_int n * (2 * pi)) = cos x" "sin (x + of_int n * (2 * pi)) = sin x"
proof -
  have c: "cos (of_int n * (2 * pi)) = 1" using cos_int_2pin [of n] by (simp add: mult.commute)
  have s: "sin (of_int n * (2 * pi)) = 0" using sin_int_2pin [of n] by (simp add: mult.commute)
  show "cos (x + of_int n * (2 * pi)) = cos x" by (simp add: cos_add c s)
  show "sin (x + of_int n * (2 * pi)) = sin x" by (simp add: sin_add c s)
qed

lemma direction_cell:
  fixes u v :: real
  defines "d \<equiv> py_mod (arctan2 v u * 180 / pi + 360) 360"
  shows "0 \<le> d \<and> d < 360 \<and> counterclockwise_from_east u v d"
proof -
  define k where "k = 1 - \<lfloor>(arctan2 v u * 180 / pi + 360) / 360\<rfloor>"
  have "d * pi / 180 = arctan2 v u + of_int k * (2 * pi)"
    by (simp add: d_def py_mod_def k_def field_simps)
  then have "cos (d * pi / 180) = cos (arctan2 v u)" "sin (d * pi / 180) = sin (arctan2 v u)"
    by (simp_all only: cos_sin_turns)
  then have "counterclockwise_from_east u v d"
    unfolding counterclockwise_from_east_def using arctan2_polar [of u v] by simp
  moreover have "0 \<le> d \<and> d < 360" unfolding d_def by (rule py_mod_range) simp
  ultimately show ?thesis by simp
qed


text \<open>
  What the method computes, for component fields on the same grid: the speed at every
  cell is \<open>sqrt (u\<^sup>2 + v\<^sup>2)\<close>, and the direction at every cell is the angle of
  \<open>(u, v)\<close> in degrees measured counterclockwise from east, in \<open>[0, 360)\<close>.
\<close>

lemma current_speed_direction:
  assumes "length u = length v"
  shows "\<exists>speed direction.
           calculate_current_speed (Some (u, v)) = Some (speed, direction)
         \<and> length speed = length u \<and> length direction = length u
         \<and> (\<forall>i < length u.
               speed ! i = sqrt ((u ! i)\<^sup>2 + (v ! i)\<^sup>2)
             \<and> 0 \<le> direction ! i \<and> direction ! i < 360
             \<and> counterclockwise_from_east (u ! i) (v ! i) (direction ! i))"
proof -
  let ?speed = "map2 (\<lambda>u v. sqrt (u\<^sup>2 + v\<^sup>2)) u v"
  let ?direction = "map (\<lambda>d. py_mod (d + 360) 360) (map2 (\<lambda>u v. arctan2 v u * 180 / pi) u v)"
  have r: "calculate_current_speed (Some (u, v)) = Some (?speed, ?direction)"
    by (simp add: calculate_current_speed_def)
  have l: "length ?speed = length u" "length ?direction = length u"
    using assms by simp_all
  have c: "?speed ! i = sqrt ((u ! i)\<^sup>2 + (v ! i)\<^sup>2)
         \<and> 0 \<le> ?direction ! i \<and> ?direction ! i < 360
         \<and> counterclockwise_from_east (u ! i) (v ! i) (?direction ! i)" if "i < length u" for i
  proof -
    have d: "?direction ! i = py_mod (arctan2 (v ! i) (u ! i) * 180 / pi + 360) 360"
      using that assms by simp
    show ?thesis
      unfolding d using that assms direction_cell [of "v ! i" "u ! i"] by simp
  qed
  show ?thesis using r l c by blast
qed

text \<open>
  Claim C6 fails on the code. The claim measures the direction clockwise from east, and
  the comment in the method announces the oceanographic convention, a clockwise
  bearing; \<open>np.arctan2(v, u)\<close> turns counterclockwise. For a current due north,
  \<open>(u, v) = (0, 1)\<close>, the method gives speed 1 and direction 90 degrees; 90 is
  not the clockwise angle of that vector from east, which is 270, nor its bearing
  clockwise from north, which is 0.
\<close>

theorem current_direction_due_north:
  "calculate_current_speed (Some ([0], [1])) = Some ([1], [90])
   \<and> \<not> clockwise_from_east 0 1 90
   \<and> clockwise_from_east 0 1 270
   \<and> \<not> clockwise_from_north 0 1 90
   \<and> clockwise_from_north 0 1 0"
proof -
  have f: "\<lfloor>450 / 360 :: real\<rfloor> = 1" by simp
  have a: "calculate_current_speed (Some ([0], [1])) = Some ([1], [90])"
    by (simp add: calculate_current_speed_def arctan2_def py_mod_def f)
  have b: "\<not> clockwise_from_east 0 1 90" by (simp add: clockwise_from_east_def)
  have "cos (3 * pi / 2) = 0" "sin (3 * pi / 2) = - 1"
    using cos_3over2_pi sin_3over2_pi by simp_all
  then have c: "clockwise_from_east 0 1 270"
    by (simp add: clockwise_from_east_def)
  have d: "\<not> clockwise_from_north 0 1 90" "clockwise_from_north 0 1 0"
    by (simp_all add: clockwise_from_north_def)
  show ?thesis using a b c d by blast
qed

subsection \<open>Temperature anomalies\<close>

lemma std_zero_all_equal:
  assumes "std xs = 0" "x \<in> set xs"
  shows "x = mean xs"
proof -
  let ?sq = "map (\<lambda>x. (x - mean xs)\<^sup>2) xs"
  have len: "0 < length xs" using assms(2) by (cases xs) simp_all
  have "mean ?sq = 0" using assms(1) by (simp add: std_def)
  then have "sum_list ?sq = 0" using len by (simp add: mean_def)
  moreover have "\<forall>y \<in> set ?sq. 0 \<le> y" by auto
  ultimately have "\<forall>y \<in> set ?sq. y = 0"
    using sum_list_nonneg_eq_0_iff [of ?sq] by blast
  then have "(x - mean xs)\<^sup>2 = 0" using assms(2) by auto
  then show ?thesis by simp
qed

lemma in_month_group:
  assumes "t < length ms" "t < length series"
  shows "series ! t \<in> set (month_group ms series (ms ! t))"
proof -
  have "(ms ! t, series ! t) \<in> set (zip ms series)"
    using assms by (auto simp add: set_zip)
  then have "(ms ! t, series ! t) \<in> set (filter (\<lambda>(m', x). m' = ms ! t) (zip ms series))"
    by simp
  then show ?thesis unfolding month_group_def by force
qed

lemma zero_std_gives_nan:
  assumes "calculate_sst_anomaly (Some sst) = Some p"
    and "c < length (cells sst)" and "t < length (months sst)" and "t < length (cells sst ! c)"
    and "std (month_group (months sst) (cells sst ! c) (months sst ! t)) = 0"
  shows "sst_standardized p ! c ! t = NaN"
proof -
  let ?series = "cells sst ! c"
  let ?g = "month_group (months sst) ?series (months sst ! t)"
  have x: "?series ! t = mean ?g"
    using std_zero_all_equal [OF assms(5) in_month_group [OF assms(3) assms(4)]] .
  have "sst_standardized p ! c ! t = true_divide (?series ! t - mean ?g) (std ?g)"
    using assms(1) assms(2) assms(3) assms(4)
    by (auto simp add: calculate_sst_anomaly_def Let_def)
  then show ?thesis using x assms(5) by (simp add: true_divide_def)
qed

text \<open>
  Claim C5 fails on the code. One year of monthly temperatures at one cell: every month
  has a single sample, so every monthly standard deviation is zero, the anomaly is zero,
  and the unguarded division gives NaN at every time step, where the claim says zero.
\<close>

theorem standardized_anomaly_single_year:
  "map_option sst_standardized
     (calculate_sst_anomaly
        (Some \<lparr>months = [1, 2, 3, 4, 5, 6, 7, 8, 9, 10, 11, 12],
               cells = [[15.1, 14.6, 14.9, 16.2, 19.0, 22.8, 25.7, 26.4, 24.5, 21.6, 18.6, 16.3]]\<rparr>))
   = Some [[NaN, NaN, NaN, NaN, NaN, NaN, NaN, NaN, NaN, NaN, NaN, NaN]]"
  by (simp add: calculate_sst_anomaly_def month_group_def mean_def std_def true_divide_def)

subsection \<open>Risk composer\<close>

lemma set_valid_values: "set (valid_values f) = {x. Some x \<in> set f}"
  by (induction f) (auto simp add: valid_values_def split: option.splits)

lemma fold_min_bounds:
  "fold min vs v \<in> set (v # vs) \<and> (\<forall>x \<in> set (v # vs). fold min vs (v::real) \<le> x)"
proof -
  have "fold min vs v = Min (set (v # vs))" by (rule Min.set_eq_fold [symmetric])
  then show ?thesis using Min_in [of "set (v # vs)"] Min_le [of "set (v # vs)"] by auto
qed

lemma fold_max_bounds:
  "fold max vs v \<in> set (v # vs) \<and> (\<forall>x \<in> set (v # vs). x \<le> fold max vs (v::real))"
proof -
  have "fold max vs v = Max (set (v # vs))" by (rule Max.set_eq_fold [symmetric])
  then show ?thesis using Max_in [of "set (v # vs)"] Max_ge [of "set (v # vs)"] by auto
qed

text \<open>
  The normalization of a field with at least one cell returns, and it is a map over the
  cells: a NaN cell stays NaN, any other cell gets a value in \<open>[0, 1]\<close>, which is 0
  when the maximum is not above the minimum.
\<close>

lemma normalize_component_map:
  assumes "f \<noteq> []"
  shows "\<exists>g. normalize_component f = Inr (map (map_option g) f)
            \<and> (\<forall>x. Some x \<in> set f \<longrightarrow> 0 \<le> g x \<and> g x \<le> 1)
            \<and> (field_max f = field_min f \<longrightarrow> (\<forall>x. g x = 0))"
proof (cases "valid_values f")
  case Nil
  then have "normalize_component f = Inr (map (map_option (\<lambda>x. x * 0)) f)"
    using assms by (simp add: normalize_component_def field_min_def field_max_def field_scale_def)
  then show ?thesis by (intro exI [where x = "\<lambda>x. x * 0"]) simp
next
  case (Cons v vs)
  define mn where "mn = fold min vs v"
  define mx where "mx = fold max vs v"
  have fm: "field_min f = Inr (Some mn)" "field_max f = Inr (Some mx)"
    using assms Cons by (simp_all add: field_min_def field_max_def mn_def mx_def)
  have mem: "Some x \<in> set f \<Longrightarrow> x \<in> set (v # vs)" for x
    using set_valid_values [of f] Cons by auto
  have lo: "Some x \<in> set f \<Longrightarrow> mn \<le> x" for x
    using mem [of x] fold_min_bounds [of vs v] unfolding mn_def by blast
  have hi: "Some x \<in> set f \<Longrightarrow> x \<le> mx" for x
    using mem [of x] fold_max_bounds [of vs v] unfolding mx_def by blast
  show ?thesis
  proof (cases "mx > mn")
    case True
    have n: "normalize_component f = Inr (map (map_option (\<lambda>x. (x - mn) / (mx - mn))) f)"
      using True by (simp add: normalize_component_def fm)
    have r: "0 \<le> (x - mn) / (mx - mn) \<and> (x - mn) / (mx - mn) \<le> 1" if "Some x \<in> set f" for x
      using lo [OF that] hi [OF that] True by (simp add: field_simps)
    have "field_max f \<noteq> field_min f" using True by (simp add: fm)
    then show ?thesis using n r by (intro exI [where x = "\<lambda>x. (x - mn) / (mx - mn)"]) simp
  next
    case False
    then have "normalize_component f = Inr (map (map_option (\<lambda>x. x * 0)) f)"
      by (simp add: normalize_component_def fm field_scale_def)
    then show ?thesis by (intro exI [where x = "\<lambda>x. x * 0"]) simp
  qed
qed


text \<open>
  Claim C2, as amended. For every field with at least one cell, min-max normalization
  returns a field on the same grid in which every cell that is not NaN in the input has
  a value in \<open>[0, 1]\<close> and every NaN cell of the input is NaN; when the maximum equals
  the minimum (a constant field) every cell that is not NaN is 0. Normalization makes
  no NaN of its own.
\<close>

theorem normalization_range:
  assumes "risk \<noteq> []"
  shows "\<exists>normalized.
           normalize_component risk = Inr normalized
         \<and> length normalized = length risk
         \<and> (\<forall>i < length risk.
               (risk ! i = None \<longrightarrow> normalized ! i = None)
             \<and> (risk ! i \<noteq> None \<longrightarrow>
                  (\<exists>y. normalized ! i = Some y \<and> 0 \<le> y \<and> y \<le> 1
                     \<and> (field_max risk = field_min risk \<longrightarrow> y = 0))))"
proof -
  obtain g where n: "normalize_component risk = Inr (map (map_option g) risk)"
    and r: "\<forall>x. Some x \<in> set risk \<longrightarrow> 0 \<le> g x \<and> g x \<le> 1"
    and c: "field_max risk = field_min risk \<longrightarrow> (\<forall>x. g x = 0)"
    using normalize_component_map [OF assms] by blast
  have cell: "(risk ! i = None \<longrightarrow> map (map_option g) risk ! i = None)
             \<and> (risk ! i \<noteq> None \<longrightarrow>
                  (\<exists>y. map (map_option g) risk ! i = Some y \<and> 0 \<le> y \<and> y \<le> 1
                     \<and> (field_max risk = field_min risk \<longrightarrow> y = 0)))"
    if "i < length risk" for i
  proof (cases "risk ! i")
    case None
    then show ?thesis using that by simp
  next
    case (Some x)
    then have "Some x \<in> set risk" using that by (metis nth_mem)
    then have "0 \<le> g x \<and> g x \<le> 1" using r by blast
    then show ?thesis using Some that c by simp
  qed
  show ?thesis using n cell by (intro exI [where x = "map (map_option g) risk"]) simp
qed

theorem normalization_range_witness:
  "\<exists>normalized.
      normalize_component [Some 2, None, Some 6, Some 4] = Inr normalized
    \<and> length normalized = 4
    \<and> normalized ! 1 = None
    \<and> (\<exists>y. normalized ! 2 = Some y \<and> 0 \<le> y \<and> y \<le> 1)"
proof -
  have "[Some 2, None, Some 6, Some (4::real)] \<noteq> []" by simp
  from normalization_range [OF this]
  obtain normalized where n: "normalize_component [Some 2, None, Some 6, Some 4] = Inr normalized"
    and l: "length normalized = length [Some 2, None, Some 6, Some (4::real)]"
    and c: "\<forall>i < length [Some 2, None, Some 6, Some (4::real)].
               ([Some 2, None, Some 6, Some (4::real)] ! i = None \<longrightarrow> normalized ! i = None)
             \<and> ([Some 2, None, Some 6, Some (4::real)] ! i \<noteq> None \<longrightarrow>
                  (\<exists>y. normalized ! i = Some y \<and> 0 \<le> y \<and> y \<le> 1
                     \<and> (field_max [Some 2, None, Some 6, Some 4]
                          = field_min [Some 2, None, Some 6, Some 4] \<longrightarrow> y = 0)))"
    by blast
  have c1: "normalized ! 1 = None" using c [rule_format, of 1] by simp
  have c2: "\<exists>y. normalized ! 2 = Some y \<and> 0 \<le> y \<and> y \<le> 1"
    using c [rule_format, of 2] by auto
  show ?thesis using n l c1 c2 by simp
qed

text \<open>
  The claim as stated covers every input field. A constant field with a NaN cell (the
  maximum and the minimum over its other cells are both 2) normalizes to a field that
  still contains the NaN: \<open>risk * 0\<close> is NaN where \<open>risk\<close> is.
\<close>

theorem normalization_nan_counterexample:
  "normalize_component [None, Some 2, Some 2] = Inr [None, Some 0, Some 0]
   \<and> field_max [None, Some 2, Some 2] = Inr (Some 2)
   \<and> field_min [None, Some 2, Some 2] = Inr (Some 2)"
  by (simp add: normalize_component_def field_min_def field_max_def valid_values_def
        field_scale_def)















lemma multifactor_weight_found:
  "set (map fst (multifactor_components env hq conn))
     \<subseteq> set (map fst (multifactor_weights env fishing hq conn mpa))"
  by (cases env; cases hq; cases conn; cases fishing; cases mpa;
      simp add: multifactor_components_def multifactor_weights_def)




text \<open>
  \<open>calculate_multifactor_risk_index\<close> does not compute that composition when the
  fishing or the MPA dataset is loaded: \<open>total_weight = sum(weights.values())\<close>
  counts the weight 0.3 of the fishing pressure and 0.15 of the protection gap, whose
  fields are never computed. With the environmental stress as the only factor and the
  fishing dataset loaded, the cell whose normalized value is 1 gets 0.2 / 0.5 = 0.4,
  where the weights of the factors present give 0.2 / 0.2 = 1.
\<close>

lemma multifactor_stub_weight_divisor:
  "calculate_multifactor_risk_index (Some [Some 0, Some 1]) True None None False
     = Inr (Some ([Some 0, Some 0.4], [low, medium]))
   \<and> normalize_all (multifactor_components (Some [Some 0, Some 1]) None None)
     = Inr [(''environmental_stress'', [Some 0, Some 1])]
   \<and> renormalized_weighted_sum
        (\<lambda>k. weights_get
                (map_of (multifactor_weights (Some [Some 0, Some 1]) True None None False)) k 0)
        [(''environmental_stress'', [Some 0, Some 1])] 1 = 1"
  by (simp add: calculate_multifactor_risk_index_def
        multifactor_components_def multifactor_weights_def normalize_component_def
        field_min_def field_max_def valid_values_def field_scale_def field_div_def
        weights_get_def classify_def renormalized_weighted_sum_def)

end
